theory Spec2Isabelle
  imports Main
begin

section \<open>Strings and JavaScript values\<close>

text \<open>
  JavaScript strings are modelled as \<open>string\<close>; a character stands for one code unit in
  the Latin-1 range. \<open>String.prototype.trim\<close> strips white space and line terminators from
  both ends; in this range these are TAB, LF, VT, FF, CR, SPACE and NBSP.
\<close>

definition is_ws :: "char \<Rightarrow> bool" where
  "is_ws c = (c \<in> set [CHR 0x09, CHR 0x0A, CHR 0x0B, CHR 0x0C, CHR 0x0D, CHR 0x20, CHR 0xA0])"

definition trim :: "string \<Rightarrow> string" where
  "trim s = rev (dropWhile is_ws (rev (dropWhile is_ws s)))"

definition optional_trim :: "string option \<Rightarrow> string option" where
  \<comment> \<open>\<open>x?.trim()\<close>: \<open>undefined\<close> stays \<open>undefined\<close>.\<close>
  "optional_trim x = map_option trim x"

definition js_or :: "string option \<Rightarrow> string option \<Rightarrow> string option" where
  \<comment> \<open>\<open>a || b\<close> on possibly undefined strings: the empty string is falsy.\<close>
  "js_or a b = (case a of None \<Rightarrow> b | Some s \<Rightarrow> if s \<noteq> [] then Some s else b)"

definition js_or_default :: "string option \<Rightarrow> string \<Rightarrow> string" where
  \<comment> \<open>\<open>a || 'literal'\<close>.\<close>
  "js_or_default a d = (case a of None \<Rightarrow> d | Some s \<Rightarrow> if s \<noteq> [] then s else d)"

fun js_includes :: "string \<Rightarrow> string \<Rightarrow> bool" where
  "js_includes [] needle = (needle = [])"
| "js_includes (c # cs) needle =
     (take (length needle) (c # cs) = needle \<or> js_includes cs needle)"

definition slice_last :: "nat \<Rightarrow> 'a list \<Rightarrow> 'a list" where
  \<comment> \<open>\<open>Array.prototype.slice(-n)\<close>: the last \<open>n\<close> entries, all of them when there are fewer.\<close>
  "slice_last n xs = drop (length xs - n) xs"

text \<open>
  A DOM access either returns or throws; \<open>Inl\<close> carries the message of the thrown error.
\<close>

type_synonym 'a js = "string + 'a"

datatype platform = Linkedin | Gmail | Web

definition detectPlatform :: "string \<Rightarrow> platform" where
  "detectPlatform hostname =
     (if js_includes hostname ''linkedin.com'' then Linkedin
      else if js_includes hostname ''mail.google.com'' then Gmail
      else Web)"

section \<open>Scraping the visible conversation\<close>

record text_el =
  innerText :: "string option"
  textContent :: "string option"

record message =
  m_text :: string
  m_is_outgoing :: bool
  m_timestamp :: nat

record msg_el =
  me_body :: "text_el option js"
  me_outgoing :: bool

record linkedin_page =
  lp_messageList :: "msg_el list option js"
  lp_header :: "string option js"
  lp_profileLink :: "string option js"

text \<open>
  \<open>me_body\<close> is \<open>msgEl.querySelector(...)\<close> for the body of a message element: it throws,
  finds nothing (\<open>null\<close>) or finds the text element. \<open>lp_messageList\<close> is the message
  thread: the query throws, finds no thread, or gives the thread's elements in document
  order, the oldest first. The loop of \<open>scrapeLinkedInContext\<close> returns the array
  \<open>messages\<close> as it stands when the loop ends or an access throws, with the error if any.
  \<open>lp_header\<close> and \<open>lp_profileLink\<close> are the two queries of \<open>getLinkedInRecipient\<close>
  with the read of \<open>innerText\<close>: the access throws, finds no element, or gives the text.
\<close>

fun linkedin_loop :: "nat \<Rightarrow> msg_el list \<Rightarrow> message list \<Rightarrow> message list \<times> string option" where
  "linkedin_loop now [] messages = (messages, None)"
| "linkedin_loop now (msgEl # rest) messages =
     (case me_body msgEl of
        Inl err \<Rightarrow> (messages, Some err)
      | Inr None \<Rightarrow> linkedin_loop now rest messages
      | Inr (Some textEl) \<Rightarrow>
          (case js_or (optional_trim (innerText textEl)) (optional_trim (textContent textEl)) of
             None \<Rightarrow> linkedin_loop now rest messages
           | Some t \<Rightarrow>
               if t \<noteq> [] \<and> 0 < length t
               then linkedin_loop now rest
                      (messages @ [\<lparr>m_text = t, m_is_outgoing = me_outgoing msgEl, m_timestamp = now\<rparr>])
               else linkedin_loop now rest messages))"

definition linkedin_try :: "nat \<Rightarrow> linkedin_page \<Rightarrow> message list \<times> string option" where
  \<comment> \<open>The body of the \<open>try\<close> block.\<close>
  "linkedin_try now pg =
     (case lp_messageList pg of
        Inl err \<Rightarrow> ([], Some err)
      | Inr None \<Rightarrow> ([], None)
      | Inr (Some els) \<Rightarrow> linkedin_loop now (slice_last 5 els) [])"

definition scrapeLinkedInContext :: "nat \<Rightarrow> linkedin_page \<Rightarrow> message list \<times> string list" where
  \<comment> \<open>Returns \<open>messages\<close> and what \<open>console.warn\<close> printed in the \<open>catch\<close> block.\<close>
  "scrapeLinkedInContext now pg =
     (case linkedin_try now pg of
        (messages, None) \<Rightarrow> (messages, [])
      | (messages, Some err) \<Rightarrow> (messages, [''Error scraping LinkedIn context: '' @ err]))"

record gmail_el =
  ge_body :: "text_el option js"
  ge_from :: "text_el option js"

record gmail_page =
  gp_thread :: "gmail_el list js"
  gp_toField :: "(string option \<times> string js) option js"
  gp_subject :: "string option js"

definition gmail_is_outgoing :: "text_el option \<Rightarrow> bool" where
  \<comment> \<open>\<open>fromEl?.innerText?.includes('me') || false\<close>\<close>
  "gmail_is_outgoing fromEl =
     (case fromEl of
        None \<Rightarrow> False
      | Some el \<Rightarrow> (case innerText el of None \<Rightarrow> False | Some s \<Rightarrow> js_includes s ''me''))"

fun gmail_loop :: "nat \<Rightarrow> gmail_el list \<Rightarrow> message list \<Rightarrow> message list \<times> string option" where
  "gmail_loop now [] messages = (messages, None)"
| "gmail_loop now (emailEl # rest) messages =
     (case ge_body emailEl of
        Inl err \<Rightarrow> (messages, Some err)
      | Inr None \<Rightarrow> gmail_loop now rest messages
      | Inr (Some bodyEl) \<Rightarrow>
          (case js_or (optional_trim (innerText bodyEl)) (optional_trim (textContent bodyEl)) of
             None \<Rightarrow> gmail_loop now rest messages
           | Some t \<Rightarrow>
               if t \<noteq> [] \<and> 0 < length t
               then (case ge_from emailEl of
                       Inl err \<Rightarrow> (messages, Some err)
                     | Inr fromEl \<Rightarrow>
                         gmail_loop now rest
                           (messages @ [\<lparr>m_text = t, m_is_outgoing = gmail_is_outgoing fromEl,
                                         m_timestamp = now\<rparr>]))
               else gmail_loop now rest messages))"

definition gmail_try :: "nat \<Rightarrow> gmail_page \<Rightarrow> message list \<times> string option" where
  "gmail_try now pg =
     (case gp_thread pg of
        Inl err \<Rightarrow> ([], Some err)
      | Inr els \<Rightarrow> gmail_loop now (slice_last 5 els) [])"

definition scrapeGmailContext :: "nat \<Rightarrow> gmail_page \<Rightarrow> message list \<times> string list" where
  "scrapeGmailContext now pg =
     (case gmail_try now pg of
        (messages, None) \<Rightarrow> (messages, [])
      | (messages, Some err) \<Rightarrow> (messages, [''Error scraping Gmail context: '' @ err]))"

subsection \<open>The recipient\<close>

text \<open>
  The recipient is read off the page by queries that no \<open>try\<close> guards inside
  \<open>getRecipient\<close>: an access that throws makes \<open>getRecipient\<close> throw, and the second
  query runs only when the first finds no element. \<open>gp_toField\<close> gives the attribute
  \<open>email\<close> of the field, if it has one, and the read of its \<open>innerText\<close>, which
  \<open>||\<close> evaluates only when the attribute is missing or empty.
\<close>

definition getLinkedInRecipient :: "linkedin_page \<Rightarrow> string js" where
  "getLinkedInRecipient pg =
     (case lp_header pg of
        Inl err \<Rightarrow> Inl err
      | Inr (Some t) \<Rightarrow> Inr (trim t)
      | Inr None \<Rightarrow>
          (case lp_profileLink pg of
             Inl err \<Rightarrow> Inl err
           | Inr (Some t) \<Rightarrow> Inr (trim t)
           | Inr None \<Rightarrow> Inr ''LinkedIn Contact''))"

definition getGmailRecipient :: "gmail_page \<Rightarrow> string js" where
  "getGmailRecipient pg =
     (case gp_toField pg of
        Inl err \<Rightarrow> Inl err
      | Inr (Some (email, inner)) \<Rightarrow>
          (case js_or email None of
             Some address \<Rightarrow> Inr address
           | None \<Rightarrow> (case inner of Inl err \<Rightarrow> Inl err | Inr t \<Rightarrow> Inr (trim t)))
      | Inr None \<Rightarrow>
          (case gp_subject pg of
             Inl err \<Rightarrow> Inl err
           | Inr (Some t) \<Rightarrow> Inr (trim t)
           | Inr None \<Rightarrow> Inr ''Gmail Contact''))"

definition getRecipient :: "platform \<Rightarrow> linkedin_page \<Rightarrow> gmail_page \<Rightarrow> string js" where
  "getRecipient p lpg gpg =
     (case p of Linkedin \<Rightarrow> getLinkedInRecipient lpg
              | Gmail \<Rightarrow> getGmailRecipient gpg
              | Web \<Rightarrow> Inr ''unknown'')"

section \<open>Scraping a LinkedIn profile\<close>

record exp_item =
  xi_title :: "string option"
  xi_company :: "string option"
  xi_duration :: "string option"

record experience =
  x_title :: string
  x_company :: string
  x_duration :: string

record edu_item =
  di_school :: "string option"
  di_degree :: "string option"
  di_years :: "string option"

record education =
  d_school :: string
  d_degree :: string
  d_years :: string

record profile_page =
  pp_name :: "string option js"
  pp_headline :: "string option js"
  pp_location :: "string option js"
  pp_about :: "string option option js"
  pp_experience :: "exp_item list option js"
  pp_education :: "edu_item list option js"
  pp_skills :: "string list option js"

record profile_data =
  pd_name :: "string option"
  pd_headline :: "string option"
  pd_location :: "string option"
  pd_about :: "string option"
  pd_experience :: "experience list option"
  pd_education :: "education list option"
  pd_skills :: "string list option"

text \<open>
  A page field is what the query for that part of the profile gives: it throws, finds
  nothing, or finds the element, of which the model keeps the \<open>textContent\<close> (for a
  section, its list items; for an item, the \<open>textContent\<close> of each of its parts, if found).
  \<open>forEach\<close> passes every entry with its index.
\<close>

fun forEach_from :: "nat \<Rightarrow> (nat \<Rightarrow> 'a \<Rightarrow> 's \<Rightarrow> 's) \<Rightarrow> 'a list \<Rightarrow> 's \<Rightarrow> 's" where
  "forEach_from i f [] s = s"
| "forEach_from i f (x # xs) s = forEach_from (Suc i) f xs (f i x s)"

definition forEach :: "(nat \<Rightarrow> 'a \<Rightarrow> 's \<Rightarrow> 's) \<Rightarrow> 'a list \<Rightarrow> 's \<Rightarrow> 's" where
  "forEach f xs s = forEach_from 0 f xs s"

definition text_or_empty :: "string option \<Rightarrow> string" where
  \<comment> \<open>\<open>el ? el.textContent.trim() : ''\<close>\<close>
  "text_or_empty el = (case el of None \<Rightarrow> [] | Some t \<Rightarrow> trim t)"

definition push_experience :: "nat \<Rightarrow> exp_item \<Rightarrow> experience list \<Rightarrow> experience list" where
  "push_experience index item experiences =
     (if index < 5
      then (case xi_title item of
              None \<Rightarrow> experiences
            | Some title \<Rightarrow>
                experiences @ [\<lparr>x_title = trim title, x_company = text_or_empty (xi_company item),
                                x_duration = text_or_empty (xi_duration item)\<rparr>])
      else experiences)"

definition push_education :: "nat \<Rightarrow> edu_item \<Rightarrow> education list \<Rightarrow> education list" where
  "push_education index item edu =
     (if index < 3
      then (case di_school item of
              None \<Rightarrow> edu
            | Some school \<Rightarrow>
                edu @ [\<lparr>d_school = trim school, d_degree = text_or_empty (di_degree item),
                        d_years = text_or_empty (di_years item)\<rparr>])
      else edu)"

definition push_skill :: "nat \<Rightarrow> string \<Rightarrow> string list \<Rightarrow> string list" where
  "push_skill index item skills =
     (if index < 10
      then (let skillText = trim item
            in if skillText \<noteq> [] \<and> \<not> List.member skills skillText
               then skills @ [skillText] else skills)
      else skills)"

definition nonempty_list :: "'a list \<Rightarrow> 'a list option" where
  \<comment> \<open>\<open>if (xs.length > 0) data.field = xs\<close>: an empty list leaves the field unset.\<close>
  "nonempty_list xs = (if 0 < length xs then Some xs else None)"

definition name_step :: "profile_page \<Rightarrow> profile_data \<Rightarrow> profile_data js" where
  "name_step pg d =
     (case pp_name pg of
        Inl err \<Rightarrow> Inl err
      | Inr None \<Rightarrow> Inr d
      | Inr (Some t) \<Rightarrow> Inr (d\<lparr>pd_name := Some (trim t)\<rparr>))"

definition headline_step :: "profile_page \<Rightarrow> profile_data \<Rightarrow> profile_data js" where
  "headline_step pg d =
     (case pp_headline pg of
        Inl err \<Rightarrow> Inl err
      | Inr None \<Rightarrow> Inr d
      | Inr (Some t) \<Rightarrow> Inr (d\<lparr>pd_headline := Some (trim t)\<rparr>))"

definition location_step :: "profile_page \<Rightarrow> profile_data \<Rightarrow> profile_data js" where
  "location_step pg d =
     (case pp_location pg of
        Inl err \<Rightarrow> Inl err
      | Inr None \<Rightarrow> Inr d
      | Inr (Some t) \<Rightarrow> Inr (d\<lparr>pd_location := Some (trim t)\<rparr>))"

definition about_step :: "profile_page \<Rightarrow> profile_data \<Rightarrow> profile_data js" where
  "about_step pg d =
     (case pp_about pg of
        Inl err \<Rightarrow> Inl err
      | Inr None \<Rightarrow> Inr d
      | Inr (Some None) \<Rightarrow> Inr d
      | Inr (Some (Some t)) \<Rightarrow> Inr (d\<lparr>pd_about := Some (trim t)\<rparr>))"

definition experience_step :: "profile_page \<Rightarrow> profile_data \<Rightarrow> profile_data js" where
  "experience_step pg d =
     (case pp_experience pg of
        Inl err \<Rightarrow> Inl err
      | Inr None \<Rightarrow> Inr d
      | Inr (Some expItems) \<Rightarrow>
          (case nonempty_list (forEach push_experience expItems []) of
             None \<Rightarrow> Inr d
           | Some experiences \<Rightarrow> Inr (d\<lparr>pd_experience := Some experiences\<rparr>)))"

definition education_step :: "profile_page \<Rightarrow> profile_data \<Rightarrow> profile_data js" where
  "education_step pg d =
     (case pp_education pg of
        Inl err \<Rightarrow> Inl err
      | Inr None \<Rightarrow> Inr d
      | Inr (Some eduItems) \<Rightarrow>
          (case nonempty_list (forEach push_education eduItems []) of
             None \<Rightarrow> Inr d
           | Some edu \<Rightarrow> Inr (d\<lparr>pd_education := Some edu\<rparr>)))"

definition skills_step :: "profile_page \<Rightarrow> profile_data \<Rightarrow> profile_data js" where
  "skills_step pg d =
     (case pp_skills pg of
        Inl err \<Rightarrow> Inl err
      | Inr None \<Rightarrow> Inr d
      | Inr (Some skillItems) \<Rightarrow>
          (case nonempty_list (forEach push_skill skillItems []) of
             None \<Rightarrow> Inr d
           | Some skills \<Rightarrow> Inr (d\<lparr>pd_skills := Some skills\<rparr>)))"

fun run_steps :: "('d \<Rightarrow> 'd js) list \<Rightarrow> 'd \<Rightarrow> 'd \<times> string option" where
  \<comment> \<open>Statements of a \<open>try\<close> block in order: a throw leaves the data as the earlier ones made it.\<close>
  "run_steps [] d = (d, None)"
| "run_steps (s # ss) d = (case s d of Inl err \<Rightarrow> (d, Some err) | Inr d' \<Rightarrow> run_steps ss d')"

definition empty_profile :: profile_data where
  "empty_profile = \<lparr>pd_name = None, pd_headline = None, pd_location = None, pd_about = None,
                     pd_experience = None, pd_education = None, pd_skills = None\<rparr>"

definition scrapeLinkedInProfile :: "profile_page \<Rightarrow> profile_data" where
  "scrapeLinkedInProfile pg =
     fst (run_steps [name_step pg, headline_step pg, location_step pg, about_step pg,
                     experience_step pg, education_step pg, skills_step pg] empty_profile)"

section \<open>Usage counters in chrome.storage.local\<close>







section \<open>The background worker\<close>

text \<open>
  \<open>fetch\<close> rejects (network failure), never answers, or answers with a response of which
  the handlers read \<open>ok\<close>, \<open>statusText\<close>, \<open>text()\<close> and \<open>json()\<close>; \<open>text()\<close> rejects
  when the body cannot be read, \<open>json()\<close> also on a body that does not parse. The backend is a function from the call to what \<open>fetch\<close>
  does with it; \<open>FetchPending\<close> stands for a call whose answer, or the body the handler
  awaits, never arrives. An \<open>async\<close> function ends resolved, rejected (with the error's
  message) or never: \<open>settled\<close>.
\<close>

definition API_BASE_URL :: string where
  "API_BASE_URL = ''http://localhost:8000''"

record 'j http_response =
  h_ok :: bool
  h_statusText :: string
  h_text :: "string js"
  h_json :: "'j js"

datatype 'j fetch_result = FetchRejects string | FetchPending | FetchResponds "'j http_response"

record 'b fetch_call =
  f_url :: string
  f_body :: 'b

datatype 'a settled = Resolved 'a | Rejected string | Pending

record rewrite_data =
  rd_platform :: platform
  rd_userInput :: string
  rd_conversationContext :: "message list"
  rd_recipient :: string

record rewrite_json =
  rj_rewritten_message :: "string option"
  rj_context_used :: "bool option"

definition handleRewriteMessage ::
  "string option \<Rightarrow> (rewrite_data fetch_call \<Rightarrow> rewrite_json fetch_result) \<Rightarrow> rewrite_data
     \<Rightarrow> rewrite_json settled" where
  \<comment> \<open>The request body carries the four fields of \<open>data\<close> under their snake-case names.\<close>
  "handleRewriteMessage apiUrlSetting fetch data =
     (case fetch \<lparr>f_url = js_or_default apiUrlSetting API_BASE_URL @ ''/api/rewrite'',
                  f_body = data\<rparr> of
        FetchRejects msg \<Rightarrow> Rejected msg
      | FetchPending \<Rightarrow> Pending
      | FetchResponds response \<Rightarrow>
          if \<not> h_ok response
          then (case h_text response of
                  Inl msg \<Rightarrow> Rejected msg
                | Inr errorText \<Rightarrow> Rejected (''API request failed: '' @ h_statusText response))
          else (case h_json response of
                  Inl msg \<Rightarrow> Rejected msg
                | Inr jsonData \<Rightarrow> Resolved jsonData))"

datatype 'a response = Success 'a | Failure string

definition respond :: "'a settled \<Rightarrow> 'a response settled" where
  \<comment> \<open>The \<open>onMessage\<close> listener: \<open>.then\<close> answers \<open>{success: true, data}\<close>, \<open>.catch\<close> answers
      \<open>{success: false, error: error.message}\<close>.\<close>
  "respond p =
     (case p of
        Resolved d \<Rightarrow> Resolved (Success d)
      | Rejected msg \<Rightarrow> Resolved (Failure msg)
      | Pending \<Rightarrow> Pending)"

record store_data =
  sd_platform :: platform
  sd_recipient :: string
  sd_message :: "string option"
  sd_isOutgoing :: bool

record store_body =
  sb_platform :: platform
  sb_recipient :: string
  sb_message :: string
  sb_is_outgoing :: bool
  sb_timestamp :: nat

datatype 'j store_status = Skipped | Stored 'j

record 'j store_run =
  sr_result :: "'j store_status settled"
  sr_fetches :: "store_body fetch_call list"
  sr_console :: "string list"

text \<open>
  \<open>handleStoreConversation\<close> gives what the \<open>async\<close> function settles to, the network calls
  it made and what it printed with \<open>console.error\<close>. \<open>sd_message\<close> is \<open>None\<close> when the request
  has no message.
\<close>

definition handleStoreConversation ::
  "string option \<Rightarrow> nat \<Rightarrow> (store_body fetch_call \<Rightarrow> 'j fetch_result) \<Rightarrow> store_data
     \<Rightarrow> 'j store_run" where
  "handleStoreConversation apiUrlSetting now fetch data =
     (case sd_message data of
        None \<Rightarrow> \<lparr>sr_result = Resolved Skipped, sr_fetches = [], sr_console = []\<rparr>
      | Some message \<Rightarrow>
          if message = [] \<or> trim message = []
          then \<lparr>sr_result = Resolved Skipped, sr_fetches = [], sr_console = []\<rparr>
          else
            (let call = \<lparr>f_url = js_or_default apiUrlSetting API_BASE_URL @ ''/api/store-conversation'',
                          f_body = \<lparr>sb_platform = sd_platform data, sb_recipient = sd_recipient data,
                                     sb_message = message, sb_is_outgoing = sd_isOutgoing data,
                                     sb_timestamp = now\<rparr>\<rparr>
             in case fetch call of
                  FetchRejects msg \<Rightarrow>
                    \<lparr>sr_result = Rejected msg, sr_fetches = [call],
                     sr_console = [''Error storing conversation: '' @ msg]\<rparr>
                | FetchPending \<Rightarrow>
                    \<lparr>sr_result = Pending, sr_fetches = [call], sr_console = []\<rparr>
                | FetchResponds response \<Rightarrow>
                    if \<not> h_ok response
                    then \<lparr>sr_result = Rejected (''API request failed: '' @ h_statusText response),
                          sr_fetches = [call],
                          sr_console = [''Error storing conversation: '' @ ''API request failed: ''
                                          @ h_statusText response]\<rparr>
                    else (case h_json response of
                            Inl msg \<Rightarrow>
                              \<lparr>sr_result = Rejected msg, sr_fetches = [call],
                               sr_console = [''Error storing conversation: '' @ msg]\<rparr>
                          | Inr jsonData \<Rightarrow>
                              \<lparr>sr_result = Resolved (Stored jsonData), sr_fetches = [call],
                               sr_console = []\<rparr>)))"

section \<open>The content script\<close>

subsection \<open>Storing a message in the background\<close>

record store_task =
  st_settled :: bool
  st_fetches :: "store_body fetch_call list"
  st_console :: "string list"
  st_stats :: "string list"

text \<open>
  \<open>storeMessage\<close> sends \<open>storeConversation\<close> to the background worker and awaits the answer
  inside a \<open>try\<close>. \<open>portError\<close> is the error of \<open>chrome.runtime.sendMessage\<close> when the
  message cannot be delivered. The task records whether the function ever settles, the
  network calls made on its behalf, the console errors and its \<open>updateStats\<close> calls.
\<close>

definition storeMessage ::
  "platform \<Rightarrow> string option \<Rightarrow> string option \<Rightarrow> nat \<Rightarrow> (store_body fetch_call \<Rightarrow> 'j fetch_result)
     \<Rightarrow> string \<Rightarrow> string \<Rightarrow> bool \<Rightarrow> store_task" where
  "storeMessage p portError apiUrlSetting now fetch recipient message isOutgoing =
     (case portError of
        Some msg \<Rightarrow>
          \<lparr>st_settled = True, st_fetches = [],
           st_console = [''Failed to store message: '' @ msg], st_stats = []\<rparr>
      | None \<Rightarrow>
          (let run = handleStoreConversation apiUrlSetting now fetch
                       \<lparr>sd_platform = p, sd_recipient = recipient, sd_message = Some message,
                        sd_isOutgoing = isOutgoing\<rparr>
           in case respond (sr_result run) of
                Resolved r \<Rightarrow>
                  \<lparr>st_settled = True, st_fetches = sr_fetches run, st_console = sr_console run,
                   st_stats = [''conversationCount'']\<rparr>
              | Rejected msg \<Rightarrow>
                  \<lparr>st_settled = True, st_fetches = sr_fetches run,
                   st_console = sr_console run @ [''Failed to store message: '' @ msg],
                   st_stats = []\<rparr>
              | Pending \<Rightarrow>
                  \<lparr>st_settled = False, st_fetches = sr_fetches run, st_console = sr_console run,
                   st_stats = []\<rparr>))"

subsection \<open>Promises on a millisecond clock\<close>

text \<open>
  A promise settles at some time of the clock, with a value or an error, or never.
  \<open>Promise.race\<close> settles as the first of its promises to settle, the earlier in the array
  on a tie. \<open>await\<close> resumes when the promise has settled and not before the present.
  \<open>timer now delay v\<close> is \<open>new Promise(resolve => setTimeout(() => resolve(v), delay))\<close>
  created at \<open>now\<close>.
\<close>

datatype 'a promise = Settles nat "'a js" | NeverSettles

definition earlier :: "'a promise \<Rightarrow> 'a promise \<Rightarrow> 'a promise" where
  "earlier p q =
     (case p of
        NeverSettles \<Rightarrow> q
      | Settles t r \<Rightarrow> (case q of NeverSettles \<Rightarrow> p | Settles u s \<Rightarrow> if t \<le> u then p else q))"

fun promise_race :: "'a promise list \<Rightarrow> 'a promise" where
  "promise_race [] = NeverSettles"
| "promise_race (p # ps) = earlier p (promise_race ps)"

definition await :: "nat \<Rightarrow> 'a promise \<Rightarrow> (nat \<times> 'a js) option" where
  "await now p = (case p of NeverSettles \<Rightarrow> None | Settles t r \<Rightarrow> Some (max now t, r))"

definition timer :: "nat \<Rightarrow> nat \<Rightarrow> 'a \<Rightarrow> 'a promise" where
  "timer now delay v = Settles (now + delay) (Inr v)"

subsection \<open>The rewrite flow\<close>

record input_el =
  el_isContentEditable :: bool
  el_tagName :: string
  el_innerText :: string
  el_textContent :: string
  el_value :: string

definition isMessageInput :: "input_el \<Rightarrow> bool" where
  "isMessageInput element =
     (el_isContentEditable element \<or> el_tagName element = ''TEXTAREA''
      \<or> el_tagName element = ''INPUT'')"

definition getInputText :: "input_el \<Rightarrow> string" where
  "getInputText input =
     (if el_isContentEditable input
      then (if el_innerText input \<noteq> [] then el_innerText input else el_textContent input)
      else el_value input)"

text \<open>
  The environment of one click on the rewrite button: the page, the clock \<open>e_now\<close> at the
  click, the settings, and how the collaborators behave. The scrapers are synchronous
  functions: they hold the single JavaScript thread for \<open>e_scrape_ms\<close> milliseconds, and
  no timer fires in between. \<open>e_rewritePort\<close> and \<open>e_storePort\<close> are the errors of
  \<open>chrome.runtime.sendMessage\<close> when a message cannot be delivered to the background
  worker; \<open>chrome.storage\<close> is taken to answer.
\<close>

record 'j env =
  e_platform :: platform
  e_input :: "input_el option"
  e_linkedin :: linkedin_page
  e_gmail :: gmail_page
  e_now :: nat
  e_scrape_ms :: nat
  e_apiUrl :: "string option"
  e_autoStore :: bool
  e_rewritePort :: "string option"
  e_storePort :: "string option"
  e_rewriteApi :: "rewrite_data fetch_call \<Rightarrow> rewrite_json fetch_result"
  e_storeApi :: "store_body fetch_call \<Rightarrow> 'j fetch_result"

definition async_without_await :: "nat \<Rightarrow> nat \<Rightarrow> 'a js \<Rightarrow> 'a promise \<times> nat" where
  \<comment> \<open>A call, at \<open>now\<close>, of an \<open>async\<close> function whose body has no \<open>await\<close>: the body runs to
      its end inside the call, for \<open>cost\<close> milliseconds, so the promise returned is settled
      when the caller goes on, at the second component.\<close>
  "async_without_await now cost result = (Settles (now + cost) result, now + cost)"

definition scrapeConversationContext ::
  "'j env \<Rightarrow> nat \<Rightarrow> message list promise \<times> nat \<times> string list" where
  \<comment> \<open>The promise, the clock when the call returns, and the warnings of the scraper.\<close>
  "scrapeConversationContext e now =
     (case e_platform e of
        Linkedin \<Rightarrow>
          (case scrapeLinkedInContext now (e_linkedin e) of
             (messages, warns) \<Rightarrow>
               (case async_without_await now (e_scrape_ms e) (Inr messages) of
                  (contextPromise, t) \<Rightarrow> (contextPromise, t, warns)))
      | Gmail \<Rightarrow>
          (case scrapeGmailContext now (e_gmail e) of
             (messages, warns) \<Rightarrow>
               (case async_without_await now (e_scrape_ms e) (Inr messages) of
                  (contextPromise, t) \<Rightarrow> (contextPromise, t, warns)))
      | Web \<Rightarrow>
          (case async_without_await now 0 (Inr []) of
             (contextPromise, t) \<Rightarrow> (contextPromise, t, [])))"

record outcome =
  o_finished :: bool
  o_alerts :: "string list"
  o_inputText :: "string option"
  o_step3_end :: "nat option"
  o_request :: "rewrite_data option"
  o_stats :: "string list"
  o_store :: "store_task option"
  o_console :: "string list"

text \<open>
  What one run of \<open>handleRewrite\<close> does: whether the function runs to its end, the
  alerts shown, the text written into the input, the clock when step 3 (context) is over,
  the request sent to the background worker, its own \<open>updateStats\<close> calls, the
  \<open>storeMessage\<close> task it started without awaiting it, and the console warnings of the
  scrapers. The button's label and the timing logs are left out. In step 3 the scraper is
  called first and \<open>getRecipient\<close> second, both before the race is awaited; an error
  thrown by \<open>getRecipient\<close> reaches the \<open>catch\<close> of \<open>handleRewrite\<close>.
\<close>

definition idle :: outcome where
  "idle = \<lparr>o_finished = True, o_alerts = [], o_inputText = None, o_step3_end = None,
           o_request = None, o_stats = [], o_store = None, o_console = []\<rparr>"

definition length_of_undefined :: string where
  \<comment> \<open>The message of the \<open>TypeError\<close> for \<open>rewrittenText.length\<close> on \<open>undefined\<close>.\<close>
  "length_of_undefined =
     ''Cannot read properties of undefined (reading '' @ [CHR 0x27] @ ''length'' @ [CHR 0x27] @ '')''"

definition step4 ::
  "'j env \<Rightarrow> string \<Rightarrow> string \<Rightarrow> message list \<Rightarrow> nat \<Rightarrow> string list \<Rightarrow> outcome" where
  "step4 e userInput recipient conversationContext t warns =
     (let data = \<lparr>rd_platform = e_platform e, rd_userInput = userInput,
                  rd_conversationContext = conversationContext, rd_recipient = recipient\<rparr>;
          sent = idle\<lparr>o_step3_end := Some t, o_request := Some data, o_console := warns\<rparr>
      in case (case e_rewritePort e of
                 Some msg \<Rightarrow> Rejected msg
               | None \<Rightarrow> respond (handleRewriteMessage (e_apiUrl e) (e_rewriteApi e) data)) of
           Pending \<Rightarrow> sent\<lparr>o_finished := False\<rparr>
         | Rejected msg \<Rightarrow> sent\<lparr>o_alerts := [''Failed to rewrite message: '' @ msg]\<rparr>
         | Resolved (Failure err) \<Rightarrow>
             sent\<lparr>o_alerts := [''Error: '' @ js_or_default (Some err) ''Unknown error'']\<rparr>
         | Resolved (Success jsonData) \<Rightarrow>
             (case rj_rewritten_message jsonData of
                None \<Rightarrow> sent\<lparr>o_alerts := [''Failed to rewrite message: '' @ length_of_undefined]\<rparr>
              | Some rewrittenText \<Rightarrow>
                  sent\<lparr>o_inputText := Some rewrittenText,
                       o_stats := [''messageCount''],
                       o_store :=
                         (if e_autoStore e
                          then Some (storeMessage (e_platform e) (e_storePort e) (e_apiUrl e) t
                                       (e_storeApi e) recipient rewrittenText True)
                          else None)\<rparr>))"

definition handleRewrite :: "'j env \<Rightarrow> outcome" where
  "handleRewrite e =
     (case e_input e of
        None \<Rightarrow> idle
      | Some input \<Rightarrow>
          if \<not> isMessageInput input then idle
          else
            (let userInput = getInputText input
             in if userInput = [] \<or> length (trim userInput) = 0
                then idle\<lparr>o_alerts := [''Please write a message first!'']\<rparr>
                else
                  (case scrapeConversationContext e (e_now e) of
                     (contextPromise, t1, warns) \<Rightarrow>
                       (case getRecipient (e_platform e) (e_linkedin e) (e_gmail e) of
                          Inl err \<Rightarrow>
                            idle\<lparr>o_alerts := [''Failed to rewrite message: '' @ err],
                                 o_step3_end := Some t1, o_console := warns\<rparr>
                        | Inr recipient \<Rightarrow>
                            (case await t1 (promise_race [contextPromise, timer t1 1000 []]) of
                               None \<Rightarrow> idle\<lparr>o_finished := False, o_console := warns\<rparr>
                             | Some (t2, Inl err) \<Rightarrow>
                                 idle\<lparr>o_alerts := [''Failed to rewrite message: '' @ err],
                                      o_step3_end := Some t2, o_console := warns\<rparr>
                             | Some (t2, Inr conversationContext) \<Rightarrow>
                                 step4 e userInput recipient conversationContext t2 warns)))))"

subsection \<open>Observing the send button\<close>

text \<open>
  The click listener that \<open>observeSendEvents\<close> installs on LinkedIn and Gmail, for a click
  on the send button: from the composer's \<open>latestDraft\<close> to the new \<open>latestDraft\<close>, the
  \<open>storeMessage\<close> call it makes, if any, its own \<open>updateStats\<close> calls, and the error
  that leaves the listener when \<open>getRecipient\<close> throws. On other pages no listener is
  installed.
\<close>

record send_result =
  sc_latestDraft :: string
  sc_store :: "store_data option"
  sc_stats :: "string list"
  sc_thrown :: "string option"

definition send_click :: "platform \<Rightarrow> linkedin_page \<Rightarrow> gmail_page \<Rightarrow> string \<Rightarrow> send_result" where
  "send_click p lpg gpg latestDraft =
     (case p of
        Web \<Rightarrow> \<lparr>sc_latestDraft = latestDraft, sc_store = None, sc_stats = [], sc_thrown = None\<rparr>
      | _ \<Rightarrow>
          (let message = trim latestDraft
           in if message \<noteq> []
              then (case getRecipient p lpg gpg of
                      Inl err \<Rightarrow>
                        \<lparr>sc_latestDraft = latestDraft, sc_store = None, sc_stats = [],
                         sc_thrown = Some err\<rparr>
                    | Inr recipient \<Rightarrow>
                        \<lparr>sc_latestDraft = [],
                         sc_store = Some \<lparr>sd_platform = p, sd_recipient = recipient,
                                           sd_message = Some message, sd_isOutgoing = True\<rparr>,
                         sc_stats = [''conversationCount''], sc_thrown = None\<rparr>)
              else \<lparr>sc_latestDraft = latestDraft, sc_store = None, sc_stats = [],
                    sc_thrown = None\<rparr>))"

section \<open>The sidebar's chat panes\<close>





section \<open>The memory engine behind the API\<close>

text \<open>
  Modelled from the spec: the backend that stores and retrieves conversation memory, that
  is the graph store, the ingestion pipeline, the session router and the retrieval engine
  of sections 3 and 4 of the specification. Its code is not among the files of the
  repository under \<open>src/\<close>; the extension only calls it. A contact is keyed by its
  platform and its normalized name, and the normalization is a parameter. The graph lists
  the message nodes in order of arrival.
\<close>

type_synonym contact_key = "platform \<times> string"

record stored_message =
  sm_contact :: contact_key
  sm_body :: string
  sm_outgoing :: bool
  sm_occurredAt :: nat

type_synonym graph = "stored_message list"

definition queryRecentMessages :: "graph \<Rightarrow> contact_key \<Rightarrow> nat \<Rightarrow> stored_message list" where
  \<comment> \<open>Modelled from the spec: the Graph Store Adapter's \<open>queryRecentMessages(contactRef, limit)\<close>,
      an ordered slice, most recent first. The graph lists the message nodes in order of
      arrival.\<close>
  "queryRecentMessages g key limit = take limit (rev (filter (\<lambda>m. sm_contact m = key) g))"

definition ingest_message :: "nat \<Rightarrow> (string \<Rightarrow> string) \<Rightarrow> graph \<Rightarrow> store_body \<Rightarrow> graph" where
  \<comment> \<open>Modelled from the spec: the Ingestion Pipeline for a message event. The contact key is
      (platform, normalized name); an event whose text and direction equal those of one of
      the \<open>window\<close> most recent stored messages of the contact creates no node, any other
      event is appended as a new node.\<close>
  "ingest_message window normalizeName g ev =
     (let key = (sb_platform ev, normalizeName (sb_recipient ev))
      in if list_ex (\<lambda>m. sm_body m = sb_message ev \<and> sm_outgoing m = sb_is_outgoing ev)
              (queryRecentMessages g key window)
         then g
         else g @ [\<lparr>sm_contact = key, sm_body = sb_message ev, sm_outgoing = sb_is_outgoing ev,
                     sm_occurredAt = sb_timestamp ev\<rparr>])"

definition backend_store ::
  "nat \<Rightarrow> (string \<Rightarrow> string) \<Rightarrow> graph \<Rightarrow> store_body fetch_call list \<Rightarrow> graph" where
  \<comment> \<open>Modelled from the spec: the store-conversation endpoint ingests the body of every call
      it receives, in order of arrival.\<close>
  "backend_store window normalizeName g calls =
     foldl (\<lambda>g' call. ingest_message window normalizeName g' (f_body call)) g calls"

definition copies :: "graph \<Rightarrow> contact_key \<Rightarrow> string \<Rightarrow> bool \<Rightarrow> nat" where
  \<comment> \<open>The number of stored nodes of one logical event (contact, text, direction).\<close>
  "copies g key body out =
     length (filter (\<lambda>m. sm_contact m = key \<and> sm_body m = body \<and> sm_outgoing m = out) g)"

datatype lane = CounterpartLane "platform option" "string option" | NamedLane string



datatype role = User | Assistant | System

record chat_turn =
  ct_lane :: lane
  ct_role :: role
  ct_body :: string
  ct_occurredAt :: nat






section \<open>Auxiliary notions and example inputs\<close>

text \<open>
  The remaining definitions serve the statements below: the bound kept by the profile
  scraper, what one element of a thread contributes, the request and the calls of one click,
  and concrete pages and collaborators.
\<close>

definition capped :: "profile_data \<Rightarrow> bool" where
  "capped d =
     ((case pd_experience d of None \<Rightarrow> True | Some xs \<Rightarrow> xs \<noteq> [] \<and> length xs \<le> 5)
      \<and> (case pd_education d of None \<Rightarrow> True | Some xs \<Rightarrow> xs \<noteq> [] \<and> length xs \<le> 3)
      \<and> (case pd_skills d of None \<Rightarrow> True | Some xs \<Rightarrow> xs \<noteq> [] \<and> length xs \<le> 10))"

definition blank_request :: store_data where
  "blank_request = \<lparr>sd_platform = Linkedin, sd_recipient = ''John Doe'',
                     sd_message = Some [CHR '' '', CHR 0x09, CHR 0x0A], sd_isOutgoing = True\<rparr>"

definition hello_request :: store_data where
  "hello_request = \<lparr>sd_platform = Linkedin, sd_recipient = ''John Doe'',
                     sd_message = Some ''See you at 2pm'', sd_isOutgoing = True\<rparr>"

definition store_accepts :: "store_body fetch_call \<Rightarrow> string fetch_result" where
  "store_accepts call = FetchResponds \<lparr>h_ok = True, h_statusText = ''OK'', h_text = Inr ''{}'',
                                        h_json = Inr ''stored''\<rparr>"

text \<open>
  What one element of a thread contributes, read off the loop bodies: the text it shows,
  the error its queries throw, and the message pushed for it.
\<close>

definition shown_text :: "text_el \<Rightarrow> string option" where
  "shown_text textEl =
     (case js_or (optional_trim (innerText textEl)) (optional_trim (textContent textEl)) of
        None \<Rightarrow> None
      | Some t \<Rightarrow> if t \<noteq> [] \<and> 0 < length t then Some t else None)"

definition linkedin_text :: "msg_el \<Rightarrow> string option" where
  "linkedin_text el = (case me_body el of Inr (Some textEl) \<Rightarrow> shown_text textEl | _ \<Rightarrow> None)"

definition linkedin_throws :: "msg_el \<Rightarrow> string option" where
  "linkedin_throws el = (case me_body el of Inl err \<Rightarrow> Some err | Inr _ \<Rightarrow> None)"

definition linkedin_message :: "nat \<Rightarrow> msg_el \<Rightarrow> message option" where
  "linkedin_message now el =
     map_option (\<lambda>t. \<lparr>m_text = t, m_is_outgoing = me_outgoing el, m_timestamp = now\<rparr>)
       (linkedin_text el)"

definition gmail_text :: "gmail_el \<Rightarrow> string option" where
  "gmail_text el = (case ge_body el of Inr (Some bodyEl) \<Rightarrow> shown_text bodyEl | _ \<Rightarrow> None)"

definition gmail_throws :: "gmail_el \<Rightarrow> string option" where
  "gmail_throws el =
     (case ge_body el of
        Inl err \<Rightarrow> Some err
      | Inr None \<Rightarrow> None
      | Inr (Some bodyEl) \<Rightarrow>
          (case shown_text bodyEl of
             None \<Rightarrow> None
           | Some t \<Rightarrow> (case ge_from el of Inl err \<Rightarrow> Some err | Inr fromEl \<Rightarrow> None)))"

definition gmail_message :: "nat \<Rightarrow> gmail_el \<Rightarrow> message option" where
  "gmail_message now el =
     (case gmail_text el of
        None \<Rightarrow> None
      | Some t \<Rightarrow>
          (case ge_from el of
             Inl err \<Rightarrow> None
           | Inr fromEl \<Rightarrow>
               Some \<lparr>m_text = t, m_is_outgoing = gmail_is_outgoing fromEl, m_timestamp = now\<rparr>))"

definition visible_context :: "'j env \<Rightarrow> nat \<Rightarrow> message list" where
  "visible_context e now =
     (case e_platform e of
        Linkedin \<Rightarrow> fst (scrapeLinkedInContext now (e_linkedin e))
      | Gmail \<Rightarrow> fst (scrapeGmailContext now (e_gmail e))
      | Web \<Rightarrow> [])"

definition scrape_cost :: "'j env \<Rightarrow> nat" where
  "scrape_cost e = (case e_platform e of Web \<Rightarrow> 0 | _ \<Rightarrow> e_scrape_ms e)"

definition scrape_warnings :: "'j env \<Rightarrow> nat \<Rightarrow> string list" where
  "scrape_warnings e now =
     (case e_platform e of
        Linkedin \<Rightarrow> snd (scrapeLinkedInContext now (e_linkedin e))
      | Gmail \<Rightarrow> snd (scrapeGmailContext now (e_gmail e))
      | Web \<Rightarrow> [])"

definition text_node :: "string \<Rightarrow> text_el" where
  "text_node t = \<lparr>innerText = Some t, textContent = Some t\<rparr>"

definition msg_node :: "string \<Rightarrow> bool \<Rightarrow> msg_el" where
  "msg_node t out = \<lparr>me_body = Inr (Some (text_node t)), me_outgoing = out\<rparr>"




definition thread_page :: "msg_el list \<Rightarrow> linkedin_page" where
  "thread_page els = \<lparr>lp_messageList = Inr (Some els), lp_header = Inr (Some ''John Doe''),
                       lp_profileLink = Inr None\<rparr>"

definition mail_page :: "gmail_el list \<Rightarrow> gmail_page" where
  "mail_page els = \<lparr>gp_thread = Inr els, gp_toField = Inr (Some (Some ''john@example.com'', Inr ''John Doe'')),
                     gp_subject = Inr None\<rparr>"

definition three_messages :: "msg_el list" where
  "three_messages = [msg_node ''first'' True, msg_node ''second'' False, msg_node ''third'' True]"







definition textbox :: input_el where
  "textbox = \<lparr>el_isContentEditable = True, el_tagName = ''DIV'', el_innerText = ''can we meet tmrw'',
               el_textContent = ''can we meet tmrw'', el_value = []\<rparr>"

definition rewrite_ok :: "rewrite_data fetch_call \<Rightarrow> rewrite_json fetch_result" where
  "rewrite_ok call =
     FetchResponds \<lparr>h_ok = True, h_statusText = ''OK'', h_text = Inr ''{...}'',
                    h_json = Inr \<lparr>rj_rewritten_message = Some ''Could we meet tomorrow?'',
                                 rj_context_used = Some (rd_conversationContext (f_body call) \<noteq> [])\<rparr>\<rparr>"




definition store_down :: "store_body fetch_call \<Rightarrow> string fetch_result" where
  "store_down call = FetchRejects ''Failed to fetch''"

definition store_silent :: "store_body fetch_call \<Rightarrow> string fetch_result" where
  "store_silent call = FetchPending"

definition click_env :: "msg_el list \<Rightarrow> nat \<Rightarrow> string env" where
  \<comment> \<open>A click on a LinkedIn thread whose scrape holds the thread for the given time.\<close>
  "click_env els ms =
     \<lparr>e_platform = Linkedin, e_input = Some textbox, e_linkedin = thread_page els,
      e_gmail = mail_page [], e_now = 0, e_scrape_ms = ms, e_apiUrl = None, e_autoStore = True,
      e_rewritePort = None, e_storePort = None, e_rewriteApi = rewrite_ok,
      e_storeApi = store_accepts\<rparr>"

definition recipient_found :: "'j env \<Rightarrow> bool" where
  \<comment> \<open>\<open>getRecipient\<close> returns at this click.\<close>
  "recipient_found e =
     (case getRecipient (e_platform e) (e_linkedin e) (e_gmail e) of
        Inr recipient \<Rightarrow> True
      | Inl err \<Rightarrow> False)"

definition click_recipient :: "'j env \<Rightarrow> string" where
  \<comment> \<open>What \<open>getRecipient\<close> returns at this click; when it throws there is no recipient and
      no request, and the value is not used.\<close>
  "click_recipient e =
     (case getRecipient (e_platform e) (e_linkedin e) (e_gmail e) of
        Inr recipient \<Rightarrow> recipient
      | Inl err \<Rightarrow> [])"

definition rewrite_request :: "'j env \<Rightarrow> input_el \<Rightarrow> rewrite_data" where
  "rewrite_request e input =
     \<lparr>rd_platform = e_platform e, rd_userInput = getInputText input,
      rd_conversationContext = visible_context e (e_now e),
      rd_recipient = click_recipient e\<rparr>"

definition rewrite_call :: "'j env \<Rightarrow> input_el \<Rightarrow> rewrite_data fetch_call" where
  "rewrite_call e input =
     \<lparr>f_url = js_or_default (e_apiUrl e) API_BASE_URL @ ''/api/rewrite'',
      f_body = rewrite_request e input\<rparr>"

definition store_call :: "'j env \<Rightarrow> string \<Rightarrow> store_body fetch_call" where
  "store_call e rewrittenText =
     \<lparr>f_url = js_or_default (e_apiUrl e) API_BASE_URL @ ''/api/store-conversation'',
      f_body = \<lparr>sb_platform = e_platform e,
                 sb_recipient = click_recipient e,
                 sb_message = rewrittenText, sb_is_outgoing = True,
                 sb_timestamp = e_now e + scrape_cost e\<rparr>\<rparr>"

definition valid_click :: "'j env \<Rightarrow> input_el \<Rightarrow> bool" where
  "valid_click e input =
     (e_input e = Some input \<and> isMessageInput input \<and> trim (getInputText input) \<noteq> [])"





definition rewrite_succeeds :: "'j env \<Rightarrow> input_el \<Rightarrow> string \<Rightarrow> bool" where
  "rewrite_succeeds e input rewrittenText =
     (valid_click e input \<and> recipient_found e \<and> e_rewritePort e = None
      \<and> (case e_rewriteApi e (rewrite_call e input) of
            FetchResponds resp \<Rightarrow>
              h_ok resp
              \<and> (case h_json resp of
                    Inr jsonData \<Rightarrow> rj_rewritten_message jsonData = Some rewrittenText
                  | Inl msg \<Rightarrow> False)
          | FetchRejects msg \<Rightarrow> False
          | FetchPending \<Rightarrow> False))"

section \<open>Properties\<close>

subsection \<open>Usage counters\<close>






subsection \<open>Storing a conversation\<close>

lemma all_dropWhile: "(\<forall>x\<in>set (dropWhile P s). P x) \<longleftrightarrow> (\<forall>x\<in>set s. P x)"
  by (induction s) auto

lemma trim_Nil_iff: "trim s = [] \<longleftrightarrow> (\<forall>c\<in>set s. is_ws c)"
  by (simp add: trim_def dropWhile_eq_Nil_conv all_dropWhile)

text \<open>
  C9. A store-conversation request whose message is absent, empty or made of white space
  only is answered \<open>{status: 'skipped'}\<close> without any network call. Every call that
  \<open>handleStoreConversation\<close> does make carries the request's message, and that message
  has a character that is not white space.
\<close>

theorem handleStoreConversation_skips_blank:
  "((sd_message d = None \<or> (\<exists>m. sd_message d = Some m \<and> (\<forall>c\<in>set m. is_ws c)))
      \<longrightarrow> handleStoreConversation url now fetch d
            = \<lparr>sr_result = Resolved Skipped, sr_fetches = [], sr_console = []\<rparr>)
   \<and> (\<forall>call\<in>set (sr_fetches (handleStoreConversation url now fetch d)).
        sd_message d = Some (sb_message (f_body call))
        \<and> (\<exists>c\<in>set (sb_message (f_body call)). \<not> is_ws c))"
proof (intro conjI impI ballI)
  assume "sd_message d = None \<or> (\<exists>m. sd_message d = Some m \<and> (\<forall>c\<in>set m. is_ws c))"
  then show "handleStoreConversation url now fetch d
            = \<lparr>sr_result = Resolved Skipped, sr_fetches = [], sr_console = []\<rparr>"
    by (auto simp: handleStoreConversation_def trim_Nil_iff)
next
  fix call
  assume c: "call \<in> set (sr_fetches (handleStoreConversation url now fetch d))"
  then obtain m where m: "sd_message d = Some m" "m \<noteq> []" "trim m \<noteq> []"
    by (cases "sd_message d") (auto simp: handleStoreConversation_def split: if_splits)
  from c m have "sb_message (f_body call) = m"
    by (auto simp: handleStoreConversation_def Let_def split: fetch_result.splits if_splits sum.splits)
  with m show "sd_message d = Some (sb_message (f_body call))" by simp
  from m(3) have "\<exists>c\<in>set m. \<not> is_ws c" by (simp add: trim_Nil_iff)
  with \<open>sb_message (f_body call) = m\<close> show "\<exists>c\<in>set (sb_message (f_body call)). \<not> is_ws c" by simp
qed

theorem handleStoreConversation_skips_blank_witness:
  "handleStoreConversation None 7 store_accepts blank_request
     = \<lparr>sr_result = Resolved Skipped, sr_fetches = [], sr_console = []\<rparr>
   \<and> sd_message blank_request = Some [CHR '' '', CHR 0x09, CHR 0x0A]
   \<and> list_all is_ws [CHR '' '', CHR 0x09, CHR 0x0A]
   \<and> sr_fetches (handleStoreConversation None 7 store_accepts hello_request)
       = [\<lparr>f_url = ''http://localhost:8000/api/store-conversation'',
           f_body = \<lparr>sb_platform = Linkedin, sb_recipient = ''John Doe'',
                      sb_message = ''See you at 2pm'', sb_is_outgoing = True, sb_timestamp = 7\<rparr>\<rparr>]
   \<and> sd_message hello_request = Some ''See you at 2pm''
   \<and> list_ex (\<lambda>c. \<not> is_ws c) ''See you at 2pm''"
proof -
  have blank: "sd_message blank_request = Some [CHR '' '', CHR 0x09, CHR 0x0A]"
    by (simp add: blank_request_def)
  have ws: "\<forall>c\<in>set [CHR '' '', CHR 0x09, CHR 0x0A]. is_ws c"
    by (simp add: is_ws_def)
  have skipped: "handleStoreConversation None 7 store_accepts blank_request
                   = \<lparr>sr_result = Resolved Skipped, sr_fetches = [], sr_console = []\<rparr>"
    using handleStoreConversation_skips_blank [of blank_request None 7 store_accepts] blank ws
    by blast
  have posted: "sr_fetches (handleStoreConversation None 7 store_accepts hello_request)
       = [\<lparr>f_url = ''http://localhost:8000/api/store-conversation'',
           f_body = \<lparr>sb_platform = Linkedin, sb_recipient = ''John Doe'',
                      sb_message = ''See you at 2pm'', sb_is_outgoing = True, sb_timestamp = 7\<rparr>\<rparr>]"
    by (simp add: handleStoreConversation_def hello_request_def trim_def is_ws_def
                  store_accepts_def js_or_default_def API_BASE_URL_def)
  have "sd_message hello_request = Some ''See you at 2pm''
        \<and> (\<exists>c\<in>set ''See you at 2pm''. \<not> is_ws c)"
    using handleStoreConversation_skips_blank [of hello_request None 7 store_accepts] posted
    by simp
  with blank ws skipped posted show ?thesis
    by (simp only: list_all_iff list_ex_iff)
qed

subsection \<open>Bounds of a captured profile\<close>

lemma forEach_experience_cap:
  "length (forEach_from i push_experience xs acc) \<le> length acc + (5 - i)"
proof (induction xs arbitrary: i acc)
  case Nil
  then show ?case by simp
next
  case (Cons x xs)
  have "length (push_experience i x acc) \<le> length acc + (if i < 5 then 1 else 0)"
    by (simp add: push_experience_def split: option.splits)
  moreover have "length (forEach_from (Suc i) push_experience xs (push_experience i x acc))
                   \<le> length (push_experience i x acc) + (5 - Suc i)"
    by (rule Cons.IH)
  ultimately show ?case by (auto split: if_splits)
qed

lemma forEach_education_cap:
  "length (forEach_from i push_education xs acc) \<le> length acc + (3 - i)"
proof (induction xs arbitrary: i acc)
  case Nil
  then show ?case by simp
next
  case (Cons x xs)
  have "length (push_education i x acc) \<le> length acc + (if i < 3 then 1 else 0)"
    by (simp add: push_education_def split: option.splits)
  moreover have "length (forEach_from (Suc i) push_education xs (push_education i x acc))
                   \<le> length (push_education i x acc) + (3 - Suc i)"
    by (rule Cons.IH)
  ultimately show ?case by (auto split: if_splits)
qed

lemma forEach_skill_cap:
  "length (forEach_from i push_skill xs acc) \<le> length acc + (10 - i)"
proof (induction xs arbitrary: i acc)
  case Nil
  then show ?case by simp
next
  case (Cons x xs)
  have "length (push_skill i x acc) \<le> length acc + (if i < 10 then 1 else 0)"
    by (simp add: push_skill_def Let_def)
  moreover have "length (forEach_from (Suc i) push_skill xs (push_skill i x acc))
                   \<le> length (push_skill i x acc) + (10 - Suc i)"
    by (rule Cons.IH)
  ultimately show ?case by (auto split: if_splits)
qed

lemma run_steps_invariant:
  assumes "\<And>s d d'. s \<in> set steps \<Longrightarrow> P d \<Longrightarrow> s d = Inr d' \<Longrightarrow> P d'" and "P d"
  shows "P (fst (run_steps steps d))"
  using assms
proof (induction steps arbitrary: d)
  case Nil
  then show ?case by simp
next
  case (Cons s ss)
  show ?case
  proof (cases "s d")
    case (Inl err)
    with Cons.prems show ?thesis by simp
  next
    case (Inr d')
    with Cons.prems have "P d'" by auto
    with Cons.IH [of d'] Cons.prems(1) Inr show ?thesis by auto
  qed
qed

lemma scalar_steps_keep_lists:
  "name_step pg d = Inr d' \<Longrightarrow>
     pd_experience d' = pd_experience d \<and> pd_education d' = pd_education d \<and> pd_skills d' = pd_skills d"
  "headline_step pg d = Inr d' \<Longrightarrow>
     pd_experience d' = pd_experience d \<and> pd_education d' = pd_education d \<and> pd_skills d' = pd_skills d"
  "location_step pg d = Inr d' \<Longrightarrow>
     pd_experience d' = pd_experience d \<and> pd_education d' = pd_education d \<and> pd_skills d' = pd_skills d"
  "about_step pg d = Inr d' \<Longrightarrow>
     pd_experience d' = pd_experience d \<and> pd_education d' = pd_education d \<and> pd_skills d' = pd_skills d"
  by (auto simp: name_step_def headline_step_def location_step_def about_step_def
           split: sum.splits option.splits)

lemma steps_keep_capped:
  "capped d \<Longrightarrow> name_step pg d = Inr d' \<Longrightarrow> capped d'"
  "capped d \<Longrightarrow> headline_step pg d = Inr d' \<Longrightarrow> capped d'"
  "capped d \<Longrightarrow> location_step pg d = Inr d' \<Longrightarrow> capped d'"
  "capped d \<Longrightarrow> about_step pg d = Inr d' \<Longrightarrow> capped d'"
  by (simp_all add: capped_def scalar_steps_keep_lists)

lemma experience_step_lists:
  assumes "experience_step pg d = Inr d'"
  shows "pd_education d' = pd_education d \<and> pd_skills d' = pd_skills d
         \<and> (pd_experience d' = pd_experience d
              \<or> (\<exists>xs. pd_experience d' = Some xs \<and> xs \<noteq> [] \<and> length xs \<le> 5))"
proof (cases "pp_experience pg")
  case (Inl err)
  with assms show ?thesis by (simp add: experience_step_def)
next
  case (Inr sec)
  show ?thesis
  proof (cases sec)
    case None
    with Inr assms show ?thesis by (simp add: experience_step_def)
  next
    case (Some expItems)
    have "length (forEach push_experience expItems []) \<le> 5"
      using forEach_experience_cap [of 0 expItems "[]"] by (simp add: forEach_def)
    with Some Inr assms show ?thesis
      by (auto simp: experience_step_def nonempty_list_def split: if_splits)
  qed
qed

lemma education_step_lists:
  assumes "education_step pg d = Inr d'"
  shows "pd_experience d' = pd_experience d \<and> pd_skills d' = pd_skills d
         \<and> (pd_education d' = pd_education d
              \<or> (\<exists>xs. pd_education d' = Some xs \<and> xs \<noteq> [] \<and> length xs \<le> 3))"
proof (cases "pp_education pg")
  case (Inl err)
  with assms show ?thesis by (simp add: education_step_def)
next
  case (Inr sec)
  show ?thesis
  proof (cases sec)
    case None
    with Inr assms show ?thesis by (simp add: education_step_def)
  next
    case (Some eduItems)
    have "length (forEach push_education eduItems []) \<le> 3"
      using forEach_education_cap [of 0 eduItems "[]"] by (simp add: forEach_def)
    with Some Inr assms show ?thesis
      by (auto simp: education_step_def nonempty_list_def split: if_splits)
  qed
qed

lemma skills_step_lists:
  assumes "skills_step pg d = Inr d'"
  shows "pd_experience d' = pd_experience d \<and> pd_education d' = pd_education d
         \<and> (pd_skills d' = pd_skills d
              \<or> (\<exists>xs. pd_skills d' = Some xs \<and> xs \<noteq> [] \<and> length xs \<le> 10))"
proof (cases "pp_skills pg")
  case (Inl err)
  with assms show ?thesis by (simp add: skills_step_def)
next
  case (Inr sec)
  show ?thesis
  proof (cases sec)
    case None
    with Inr assms show ?thesis by (simp add: skills_step_def)
  next
    case (Some skillItems)
    have "length (forEach push_skill skillItems []) \<le> 10"
      using forEach_skill_cap [of 0 skillItems "[]"] by (simp add: forEach_def)
    with Some Inr assms show ?thesis
      by (auto simp: skills_step_def nonempty_list_def split: if_splits)
  qed
qed

lemma experience_step_capped: "capped d \<Longrightarrow> experience_step pg d = Inr d' \<Longrightarrow> capped d'"
  using experience_step_lists [of pg d d'] by (auto simp: capped_def)

lemma education_step_capped: "capped d \<Longrightarrow> education_step pg d = Inr d' \<Longrightarrow> capped d'"
  using education_step_lists [of pg d d'] by (auto simp: capped_def)

lemma skills_step_capped: "capped d \<Longrightarrow> skills_step pg d = Inr d' \<Longrightarrow> capped d'"
  using skills_step_lists [of pg d d'] by (auto simp: capped_def)

lemma scrapeLinkedInProfile_capped: "capped (scrapeLinkedInProfile pg)"
  unfolding scrapeLinkedInProfile_def
proof (rule run_steps_invariant)
  show "capped empty_profile" by (simp add: capped_def empty_profile_def)
next
  fix s d d'
  assume "s \<in> set [name_step pg, headline_step pg, location_step pg, about_step pg,
                     experience_step pg, education_step pg, skills_step pg]"
    and "capped d" and "s d = Inr d'"
  then consider "s = name_step pg" | "s = headline_step pg" | "s = location_step pg"
    | "s = about_step pg" | "s = experience_step pg" | "s = education_step pg"
    | "s = skills_step pg"
    by auto
  then show "capped d'"
  proof cases
    case 1 with \<open>capped d\<close> \<open>s d = Inr d'\<close> show ?thesis by (blast intro: steps_keep_capped(1))
  next
    case 2 with \<open>capped d\<close> \<open>s d = Inr d'\<close> show ?thesis by (blast intro: steps_keep_capped(2))
  next
    case 3 with \<open>capped d\<close> \<open>s d = Inr d'\<close> show ?thesis by (blast intro: steps_keep_capped(3))
  next
    case 4 with \<open>capped d\<close> \<open>s d = Inr d'\<close> show ?thesis by (blast intro: steps_keep_capped(4))
  next
    case 5 with \<open>capped d\<close> \<open>s d = Inr d'\<close> show ?thesis by (blast intro: experience_step_capped)
  next
    case 6 with \<open>capped d\<close> \<open>s d = Inr d'\<close> show ?thesis by (blast intro: education_step_capped)
  next
    case 7 with \<open>capped d\<close> \<open>s d = Inr d'\<close> show ?thesis by (blast intro: skills_step_capped)
  qed
qed

text \<open>
  C6. In every captured profile the experience list has at most 5 entries, the education
  list at most 3 and the skills list at most 10; a list that would be empty is not set.
\<close>

theorem profile_lists_capped:
  "(case pd_experience (scrapeLinkedInProfile pg) of None \<Rightarrow> True | Some xs \<Rightarrow> length xs \<le> 5)
   \<and> (case pd_education (scrapeLinkedInProfile pg) of None \<Rightarrow> True | Some xs \<Rightarrow> length xs \<le> 3)
   \<and> (case pd_skills (scrapeLinkedInProfile pg) of None \<Rightarrow> True | Some xs \<Rightarrow> length xs \<le> 10)"
  using scrapeLinkedInProfile_capped [of pg]
  by (auto simp: capped_def split: option.splits)

subsection \<open>The scraped context\<close>




lemma linkedin_loop_step:
  "linkedin_loop now (el # xs) acc =
     (case linkedin_throws el of
        Some err \<Rightarrow> (acc, Some err)
      | None \<Rightarrow> linkedin_loop now xs
                  (acc @ (case linkedin_message now el of None \<Rightarrow> [] | Some m \<Rightarrow> [m])))"
  by (simp add: linkedin_throws_def linkedin_message_def linkedin_text_def shown_text_def
           split: sum.splits option.splits)

lemma gmail_loop_step:
  "gmail_loop now (el # xs) acc =
     (case gmail_throws el of
        Some err \<Rightarrow> (acc, Some err)
      | None \<Rightarrow> gmail_loop now xs
                  (acc @ (case gmail_message now el of None \<Rightarrow> [] | Some m \<Rightarrow> [m])))"
  by (simp add: gmail_throws_def gmail_message_def gmail_text_def shown_text_def
           split: sum.splits option.splits)

lemma map_filter_Cons_list:
  "List.map_filter f (x # xs) = (case f x of None \<Rightarrow> [] | Some y \<Rightarrow> [y]) @ List.map_filter f xs"
  by (simp add: List.map_filter_simps split: option.splits)

lemma linkedin_loop_clean:
  "\<forall>el\<in>set xs. linkedin_throws el = None \<Longrightarrow>
   linkedin_loop now xs acc = (acc @ List.map_filter (linkedin_message now) xs, None)"
proof (induction xs arbitrary: acc)
  case Nil
  then show ?case by (simp add: List.map_filter_simps)
next
  case (Cons el xs)
  then show ?case
    by (simp only: linkedin_loop_step map_filter_Cons_list) simp
qed


lemma gmail_loop_clean:
  "\<forall>el\<in>set xs. gmail_throws el = None \<Longrightarrow>
   gmail_loop now xs acc = (acc @ List.map_filter (gmail_message now) xs, None)"
proof (induction xs arbitrary: acc)
  case Nil
  then show ?case by (simp add: List.map_filter_simps)
next
  case (Cons el xs)
  then show ?case
    by (simp only: gmail_loop_step map_filter_Cons_list) simp
qed







lemma set_slice_last: "set (slice_last n xs) \<subseteq> set xs"
  by (simp add: slice_last_def set_drop_subset)

lemma scrapeLinkedInContext_clean:
  assumes "lp_messageList pg = Inr (Some els)" and "\<forall>el\<in>set els. linkedin_throws el = None"
  shows "scrapeLinkedInContext now pg
           = (List.map_filter (linkedin_message now) (slice_last 5 els), [])"
proof -
  from assms(2) have "\<forall>el\<in>set (slice_last 5 els). linkedin_throws el = None"
    using set_slice_last [of 5 els] by blast
  then have "linkedin_loop now (slice_last 5 els) []
               = ([] @ List.map_filter (linkedin_message now) (slice_last 5 els), None)"
    by (rule linkedin_loop_clean)
  with assms(1) show ?thesis
    by (simp add: scrapeLinkedInContext_def linkedin_try_def)
qed

lemma scrapeGmailContext_clean:
  assumes "gp_thread pg = Inr els" and "\<forall>el\<in>set els. gmail_throws el = None"
  shows "scrapeGmailContext now pg
           = (List.map_filter (gmail_message now) (slice_last 5 els), [])"
proof -
  from assms(2) have "\<forall>el\<in>set (slice_last 5 els). gmail_throws el = None"
    using set_slice_last [of 5 els] by blast
  then have "gmail_loop now (slice_last 5 els) []
               = ([] @ List.map_filter (gmail_message now) (slice_last 5 els), None)"
    by (rule gmail_loop_clean)
  with assms(1) show ?thesis
    by (simp add: scrapeGmailContext_def gmail_try_def)
qed
















subsection \<open>The rewrite flow\<close>

lemma scrapeConversationContext_eq:
  "scrapeConversationContext e now
     = (Settles (now + scrape_cost e) (Inr (visible_context e now)), now + scrape_cost e,
        scrape_warnings e now)"
  by (cases "e_platform e")
     (simp_all add: scrapeConversationContext_def async_without_await_def scrape_cost_def
                    visible_context_def scrape_warnings_def split: prod.splits)

lemma race_with_timer: "await t (promise_race [Settles t r, timer t d v]) = Some (t, r)"
  by (simp add: earlier_def timer_def await_def)

lemma handleRewrite_sends:
  assumes "e_input e = Some input" and "isMessageInput input" and "trim (getInputText input) \<noteq> []"
  shows "handleRewrite e
           = (case getRecipient (e_platform e) (e_linkedin e) (e_gmail e) of
                Inl err \<Rightarrow>
                  idle\<lparr>o_alerts := [''Failed to rewrite message: '' @ err],
                       o_step3_end := Some (e_now e + scrape_cost e),
                       o_console := scrape_warnings e (e_now e)\<rparr>
              | Inr recipient \<Rightarrow>
                  step4 e (getInputText input) recipient (visible_context e (e_now e))
                    (e_now e + scrape_cost e) (scrape_warnings e (e_now e)))"
proof -
  from assms(3) have "getInputText input \<noteq> []" by (auto simp: trim_def)
  with assms show ?thesis
    by (cases "getRecipient (e_platform e) (e_linkedin e) (e_gmail e)")
       (simp_all add: handleRewrite_def Let_def scrapeConversationContext_eq race_with_timer
                 del: promise_race.simps)
qed

lemma step4_request:
  "o_request (step4 e u r ctx t w)
     = Some \<lparr>rd_platform = e_platform e, rd_userInput = u, rd_conversationContext = ctx,
             rd_recipient = r\<rparr>"
  by (simp add: step4_def Let_def idle_def split: settled.splits response.splits option.splits)

lemma step4_step3_end: "o_step3_end (step4 e u r ctx t w) = Some t"
  by (simp add: step4_def Let_def idle_def split: settled.splits response.splits option.splits)



lemma handleRewrite_valid:
  assumes "valid_click e input" and "recipient_found e"
  shows "handleRewrite e
           = step4 e (getInputText input) (click_recipient e)
               (visible_context e (e_now e)) (e_now e + scrape_cost e)
               (scrape_warnings e (e_now e))"
  using assms handleRewrite_sends [of e input]
  by (cases "getRecipient (e_platform e) (e_linkedin e) (e_gmail e)")
     (simp_all add: valid_click_def recipient_found_def click_recipient_def)

lemma handleRewrite_invalid:
  assumes "e_input e = Some input" and "\<not> valid_click e input"
  shows "handleRewrite e
           = (if \<not> isMessageInput input then idle
              else idle\<lparr>o_alerts := [''Please write a message first!'']\<rparr>)"
  using assms by (simp add: valid_click_def handleRewrite_def Let_def)

lemma handleRewrite_recipient_throws:
  assumes "valid_click e input"
    and "getRecipient (e_platform e) (e_linkedin e) (e_gmail e) = Inl err"
  shows "handleRewrite e
           = idle\<lparr>o_alerts := [''Failed to rewrite message: '' @ err],
                  o_step3_end := Some (e_now e + scrape_cost e),
                  o_console := scrape_warnings e (e_now e)\<rparr>"
  using assms handleRewrite_sends [of e input] by (simp add: valid_click_def)


lemma step4_success:
  assumes "e_rewritePort e = None"
    and "e_rewriteApi e \<lparr>f_url = js_or_default (e_apiUrl e) API_BASE_URL @ ''/api/rewrite'',
                          f_body = \<lparr>rd_platform = e_platform e, rd_userInput = u,
                                     rd_conversationContext = ctx, rd_recipient = r\<rparr>\<rparr>
           = FetchResponds resp"
    and "h_ok resp" and "h_json resp = Inr jsonData"
    and "rj_rewritten_message jsonData = Some rewrittenText"
  shows "step4 e u r ctx t w
           = \<lparr>o_finished = True, o_alerts = [], o_inputText = Some rewrittenText,
              o_step3_end = Some t,
              o_request = Some \<lparr>rd_platform = e_platform e, rd_userInput = u,
                                 rd_conversationContext = ctx, rd_recipient = r\<rparr>,
              o_stats = [''messageCount''],
              o_store = (if e_autoStore e
                         then Some (storeMessage (e_platform e) (e_storePort e) (e_apiUrl e) t
                                      (e_storeApi e) r rewrittenText True)
                         else None),
              o_console = w\<rparr>"
  using assms
  by (simp add: step4_def Let_def idle_def handleRewriteMessage_def respond_def)

lemma step4_store_free:
  "o_finished (step4 (e\<lparr>e_storeApi := f, e_storePort := p\<rparr>) u r ctx t w) = o_finished (step4 e u r ctx t w)
   \<and> o_alerts (step4 (e\<lparr>e_storeApi := f, e_storePort := p\<rparr>) u r ctx t w) = o_alerts (step4 e u r ctx t w)
   \<and> o_inputText (step4 (e\<lparr>e_storeApi := f, e_storePort := p\<rparr>) u r ctx t w) = o_inputText (step4 e u r ctx t w)
   \<and> o_step3_end (step4 (e\<lparr>e_storeApi := f, e_storePort := p\<rparr>) u r ctx t w) = o_step3_end (step4 e u r ctx t w)
   \<and> o_request (step4 (e\<lparr>e_storeApi := f, e_storePort := p\<rparr>) u r ctx t w) = o_request (step4 e u r ctx t w)
   \<and> o_stats (step4 (e\<lparr>e_storeApi := f, e_storePort := p\<rparr>) u r ctx t w) = o_stats (step4 e u r ctx t w)
   \<and> o_console (step4 (e\<lparr>e_storeApi := f, e_storePort := p\<rparr>) u r ctx t w) = o_console (step4 e u r ctx t w)"
  by (simp add: step4_def Let_def idle_def split: settled.splits response.splits option.splits)

lemma store_update_scrape:
  "visible_context (e\<lparr>e_storeApi := f, e_storePort := p\<rparr>) now = visible_context e now"
  "scrape_cost (e\<lparr>e_storeApi := f, e_storePort := p\<rparr>) = scrape_cost e"
  "scrape_warnings (e\<lparr>e_storeApi := f, e_storePort := p\<rparr>) now = scrape_warnings e now"
  by (cases "e_platform e"; simp add: visible_context_def scrape_cost_def scrape_warnings_def)+

lemma handleRewrite_store_update:
  "handleRewrite (e\<lparr>e_storeApi := f, e_storePort := p\<rparr>)
     = (case e_input e of
          None \<Rightarrow> handleRewrite e
        | Some input \<Rightarrow>
            if valid_click e input \<and> recipient_found e
            then step4 (e\<lparr>e_storeApi := f, e_storePort := p\<rparr>) (getInputText input)
                   (click_recipient e)
                   (visible_context e (e_now e)) (e_now e + scrape_cost e)
                   (scrape_warnings e (e_now e))
            else handleRewrite e)"
proof (cases "e_input e")
  case None
  then show ?thesis by (simp add: handleRewrite_def)
next
  case (Some input)
  show ?thesis
  proof (cases "valid_click e input")
    case True
    then have v: "valid_click (e\<lparr>e_storeApi := f, e_storePort := p\<rparr>) input"
      by (simp add: valid_click_def)
    show ?thesis
    proof (cases "getRecipient (e_platform e) (e_linkedin e) (e_gmail e)")
      case (Inl err)
      then have "getRecipient (e_platform (e\<lparr>e_storeApi := f, e_storePort := p\<rparr>))
                   (e_linkedin (e\<lparr>e_storeApi := f, e_storePort := p\<rparr>))
                   (e_gmail (e\<lparr>e_storeApi := f, e_storePort := p\<rparr>)) = Inl err"
        by simp
      from handleRewrite_recipient_throws [OF v this] handleRewrite_recipient_throws [OF True Inl]
        Some True Inl
      show ?thesis
        by (simp add: store_update_scrape recipient_found_def)
    next
      case (Inr recipient)
      then have "recipient_found (e\<lparr>e_storeApi := f, e_storePort := p\<rparr>)"
        and "recipient_found e"
        and "click_recipient (e\<lparr>e_storeApi := f, e_storePort := p\<rparr>) = click_recipient e"
        by (simp_all add: recipient_found_def click_recipient_def)
      with handleRewrite_valid [OF v] Some True show ?thesis
        by (simp add: store_update_scrape)
    qed
  next
    case False
    then have "\<not> valid_click (e\<lparr>e_storeApi := f, e_storePort := p\<rparr>) input"
      by (simp add: valid_click_def)
    with Some have "handleRewrite (e\<lparr>e_storeApi := f, e_storePort := p\<rparr>)
                      = (if \<not> isMessageInput input then idle
                         else idle\<lparr>o_alerts := [''Please write a message first!'']\<rparr>)"
      by (intro handleRewrite_invalid) simp_all
    also have "\<dots> = handleRewrite e"
      using Some False by (rule handleRewrite_invalid [symmetric])
    finally show ?thesis
      by (simp only: Some option.case False simp_thms if_False)
  qed
qed



lemma handleRewrite_request:
  assumes "valid_click e input" and "recipient_found e"
  shows "o_request (handleRewrite e) = Some (rewrite_request e input)"
  using handleRewrite_valid [OF assms] by (simp add: step4_request rewrite_request_def)

lemma handleRewrite_step3_end:
  assumes "valid_click e input" and "recipient_found e"
  shows "o_step3_end (handleRewrite e) = Some (e_now e + scrape_cost e)"
  using handleRewrite_valid [OF assms] by (simp add: step4_step3_end)


lemma textbox_valid: "valid_click (click_env els ms) textbox"
  by (simp add: valid_click_def click_env_def textbox_def isMessageInput_def getInputText_def
                trim_def is_ws_def)

lemma click_env_recipient:
  "getRecipient (e_platform (click_env els ms)) (e_linkedin (click_env els ms))
     (e_gmail (click_env els ms)) = Inr ''John Doe''"
  by (simp add: click_env_def getRecipient_def getLinkedInRecipient_def thread_page_def
                trim_def is_ws_def)

lemma click_env_found:
  "recipient_found (click_env els ms)" "click_recipient (click_env els ms) = ''John Doe''"
  by (simp_all add: recipient_found_def click_recipient_def click_env_recipient)





lemma race_times_out_when_pending:
  "d < c \<Longrightarrow> await t (promise_race [Settles (t + c) r, timer t d v]) = Some (t + d, Inr v)"
  by (simp add: earlier_def timer_def await_def)

lemma rewrite_succeeds_found:
  assumes "rewrite_succeeds e input rewrittenText"
  shows "valid_click e input" and "recipient_found e" and "e_rewritePort e = None"
  using assms by (simp_all add: rewrite_succeeds_def)

lemma handleRewrite_success:
  assumes "rewrite_succeeds e input rewrittenText"
  shows "handleRewrite e
           = \<lparr>o_finished = True, o_alerts = [], o_inputText = Some rewrittenText,
              o_step3_end = Some (e_now e + scrape_cost e),
              o_request = Some (rewrite_request e input),
              o_stats = [''messageCount''],
              o_store = (if e_autoStore e
                         then Some (storeMessage (e_platform e) (e_storePort e) (e_apiUrl e)
                                      (e_now e + scrape_cost e) (e_storeApi e)
                                      (click_recipient e) rewrittenText True)
                         else None),
              o_console = scrape_warnings e (e_now e)\<rparr>"
proof -
  note v = rewrite_succeeds_found(1) [OF assms] and found = rewrite_succeeds_found(2) [OF assms]
    and port = rewrite_succeeds_found(3) [OF assms]
  from assms obtain resp jsonData where
    r: "e_rewriteApi e (rewrite_call e input) = FetchResponds resp" "h_ok resp"
       "h_json resp = Inr jsonData" "rj_rewritten_message jsonData = Some rewrittenText"
    by (auto simp: rewrite_succeeds_def split: fetch_result.splits sum.splits)
  from r(1) have call: "e_rewriteApi e
      \<lparr>f_url = js_or_default (e_apiUrl e) API_BASE_URL @ ''/api/rewrite'',
       f_body = \<lparr>rd_platform = e_platform e, rd_userInput = getInputText input,
                  rd_conversationContext = visible_context e (e_now e),
                  rd_recipient = click_recipient e\<rparr>\<rparr>
      = FetchResponds resp"
    by (simp add: rewrite_call_def rewrite_request_def)
  show ?thesis
    unfolding handleRewrite_valid [OF v found]
    by (simp only: step4_success [OF port call r(2) r(3) r(4)] rewrite_request_def)
qed


lemma handleRewrite_store_free:
  "o_finished (handleRewrite (e\<lparr>e_storeApi := f, e_storePort := p\<rparr>)) = o_finished (handleRewrite e)
   \<and> o_alerts (handleRewrite (e\<lparr>e_storeApi := f, e_storePort := p\<rparr>)) = o_alerts (handleRewrite e)
   \<and> o_inputText (handleRewrite (e\<lparr>e_storeApi := f, e_storePort := p\<rparr>)) = o_inputText (handleRewrite e)
   \<and> o_step3_end (handleRewrite (e\<lparr>e_storeApi := f, e_storePort := p\<rparr>)) = o_step3_end (handleRewrite e)
   \<and> o_request (handleRewrite (e\<lparr>e_storeApi := f, e_storePort := p\<rparr>)) = o_request (handleRewrite e)
   \<and> o_stats (handleRewrite (e\<lparr>e_storeApi := f, e_storePort := p\<rparr>)) = o_stats (handleRewrite e)
   \<and> o_console (handleRewrite (e\<lparr>e_storeApi := f, e_storePort := p\<rparr>)) = o_console (handleRewrite e)"
proof (cases "e_input e")
  case None
  then show ?thesis by (simp add: handleRewrite_store_update)
next
  case (Some input)
  show ?thesis
  proof (cases "valid_click e input \<and> recipient_found e")
    case True
    then have v: "valid_click e input" and found: "recipient_found e"
      by simp_all
    show ?thesis
      unfolding handleRewrite_store_update handleRewrite_valid [OF v found]
      using Some True step4_store_free by simp
  next
    case False
    show ?thesis
      by (simp only: handleRewrite_store_update Some option.case if_not_P [OF False])
  qed
qed

lemma storeMessage_pending:
  assumes "trim message \<noteq> []"
    and "fetch \<lparr>f_url = js_or_default url API_BASE_URL @ ''/api/store-conversation'',
                 f_body = \<lparr>sb_platform = pf, sb_recipient = r, sb_message = message,
                            sb_is_outgoing = out, sb_timestamp = t\<rparr>\<rparr> = FetchPending"
  shows "storeMessage pf None url t fetch r message out
           = \<lparr>st_settled = False,
              st_fetches = [\<lparr>f_url = js_or_default url API_BASE_URL @ ''/api/store-conversation'',
                             f_body = \<lparr>sb_platform = pf, sb_recipient = r, sb_message = message,
                                        sb_is_outgoing = out, sb_timestamp = t\<rparr>\<rparr>],
              st_console = [], st_stats = []\<rparr>"
proof -
  from assms(1) have "message \<noteq> []" by (auto simp: trim_def)
  with assms show ?thesis
    by (simp add: storeMessage_def handleStoreConversation_def Let_def respond_def)
qed

lemma storeMessage_rejected:
  assumes "trim message \<noteq> []"
    and "fetch \<lparr>f_url = js_or_default url API_BASE_URL @ ''/api/store-conversation'',
                 f_body = \<lparr>sb_platform = pf, sb_recipient = r, sb_message = message,
                            sb_is_outgoing = out, sb_timestamp = t\<rparr>\<rparr> = FetchRejects msg"
  shows "storeMessage pf None url t fetch r message out
           = \<lparr>st_settled = True,
              st_fetches = [\<lparr>f_url = js_or_default url API_BASE_URL @ ''/api/store-conversation'',
                             f_body = \<lparr>sb_platform = pf, sb_recipient = r, sb_message = message,
                                        sb_is_outgoing = out, sb_timestamp = t\<rparr>\<rparr>],
              st_console = [''Error storing conversation: '' @ msg],
              st_stats = [''conversationCount'']\<rparr>"
proof -
  from assms(1) have "message \<noteq> []" by (auto simp: trim_def)
  with assms show ?thesis
    by (simp add: storeMessage_def handleStoreConversation_def Let_def respond_def)
qed


lemma three_messages_context:
  "visible_context (click_env three_messages ms) 0
     = [\<lparr>m_text = ''first'', m_is_outgoing = True, m_timestamp = 0\<rparr>,
        \<lparr>m_text = ''second'', m_is_outgoing = False, m_timestamp = 0\<rparr>,
        \<lparr>m_text = ''third'', m_is_outgoing = True, m_timestamp = 0\<rparr>]"
  by (simp add: visible_context_def click_env_def scrapeLinkedInContext_def linkedin_try_def
                thread_page_def three_messages_def slice_last_def msg_node_def text_node_def
                js_or_def optional_trim_def trim_def is_ws_def)

lemma click_env_request:
  "rewrite_request (click_env els ms) textbox
     = \<lparr>rd_platform = Linkedin, rd_userInput = ''can we meet tmrw'',
        rd_conversationContext = visible_context (click_env els ms) 0,
        rd_recipient = ''John Doe''\<rparr>"
  unfolding rewrite_request_def click_env_found
  by (simp add: click_env_def textbox_def getInputText_def)

text \<open>
  C1. The deadline of \<open>handleRewrite\<close> does not bound a slow scrape. The scrapers run
  inside the call of \<open>scrapeConversationContext\<close>, so its promise is fulfilled before
  the timer is created and \<open>Promise.race\<close> always yields the scraped list: on a thread
  of three messages whose scrape takes 5000 ms, step 3 ends at 5000 ms and the request
  carries the three messages, not the empty list.
\<close>

theorem slow_scrape_is_awaited_in_full:
  "o_step3_end (handleRewrite (click_env three_messages 5000)) = Some 5000
   \<and> o_request (handleRewrite (click_env three_messages 5000))
     = Some \<lparr>rd_platform = Linkedin, rd_userInput = ''can we meet tmrw'',
             rd_conversationContext =
               [\<lparr>m_text = ''first'', m_is_outgoing = True, m_timestamp = 0\<rparr>,
                \<lparr>m_text = ''second'', m_is_outgoing = False, m_timestamp = 0\<rparr>,
                \<lparr>m_text = ''third'', m_is_outgoing = True, m_timestamp = 0\<rparr>],
             rd_recipient = ''John Doe''\<rparr>"
proof -
  have v: "valid_click (click_env three_messages 5000) textbox" by (rule textbox_valid)
  have found: "recipient_found (click_env three_messages 5000)" by (rule click_env_found)
  have "o_step3_end (handleRewrite (click_env three_messages 5000)) = Some 5000"
    using handleRewrite_step3_end [OF v found] by (simp add: click_env_def scrape_cost_def)
  moreover have "o_request (handleRewrite (click_env three_messages 5000))
     = Some (rewrite_request (click_env three_messages 5000) textbox)"
    by (rule handleRewrite_request [OF v found])
  ultimately show ?thesis
    by (simp only: click_env_request three_messages_context)
qed


lemma click_env_succeeds:
  "rewrite_succeeds ((click_env els ms)\<lparr>e_storeApi := f\<rparr>) textbox ''Could we meet tomorrow?''"
proof -
  have "valid_click (click_env els ms) textbox" by (rule textbox_valid)
  then have "valid_click ((click_env els ms)\<lparr>e_storeApi := f\<rparr>) textbox"
    by (simp add: valid_click_def)
  moreover have "recipient_found ((click_env els ms)\<lparr>e_storeApi := f\<rparr>)"
    using click_env_recipient [of els ms] by (simp add: recipient_found_def)
  ultimately show ?thesis
    by (simp add: rewrite_succeeds_def click_env_def rewrite_ok_def)
qed







text \<open>
  C8. What \<open>handleRewrite\<close> shows and returns does not depend on the store: replacing
  the store's behaviour changes neither whether the function finishes, nor the alerts,
  the text written, the end of step 3 or the request. After a successful rewrite with
  \<open>autoStore\<close> on, the function finishes without alert when the store never answers
  (the task it started is still pending), and when the store fails (the failure is
  printed by \<open>console.error\<close> in the background worker).
\<close>

theorem store_is_fire_and_forget:
  "o_finished (handleRewrite (e\<lparr>e_storeApi := f, e_storePort := p\<rparr>)) = o_finished (handleRewrite e)
   \<and> o_alerts (handleRewrite (e\<lparr>e_storeApi := f, e_storePort := p\<rparr>)) = o_alerts (handleRewrite e)
   \<and> o_inputText (handleRewrite (e\<lparr>e_storeApi := f, e_storePort := p\<rparr>)) = o_inputText (handleRewrite e)
   \<and> o_step3_end (handleRewrite (e\<lparr>e_storeApi := f, e_storePort := p\<rparr>)) = o_step3_end (handleRewrite e)
   \<and> o_request (handleRewrite (e\<lparr>e_storeApi := f, e_storePort := p\<rparr>)) = o_request (handleRewrite e)
   \<and> (rewrite_succeeds e input rewrittenText \<and> e_autoStore e \<and> e_storePort e = None
        \<and> trim rewrittenText \<noteq> [] \<and> e_storeApi e (store_call e rewrittenText) = FetchPending
      \<longrightarrow> o_finished (handleRewrite e) \<and> o_alerts (handleRewrite e) = []
          \<and> o_store (handleRewrite e)
              = Some \<lparr>st_settled = False, st_fetches = [store_call e rewrittenText],
                      st_console = [], st_stats = []\<rparr>)
   \<and> (rewrite_succeeds e input rewrittenText \<and> e_autoStore e \<and> e_storePort e = None
        \<and> trim rewrittenText \<noteq> [] \<and> e_storeApi e (store_call e rewrittenText) = FetchRejects msg
      \<longrightarrow> o_finished (handleRewrite e) \<and> o_alerts (handleRewrite e) = []
          \<and> o_store (handleRewrite e)
              = Some \<lparr>st_settled = True, st_fetches = [store_call e rewrittenText],
                      st_console = [''Error storing conversation: '' @ msg],
                      st_stats = [''conversationCount'']\<rparr>)"
proof -
  have free: "o_finished (handleRewrite (e\<lparr>e_storeApi := f, e_storePort := p\<rparr>)) = o_finished (handleRewrite e)
   \<and> o_alerts (handleRewrite (e\<lparr>e_storeApi := f, e_storePort := p\<rparr>)) = o_alerts (handleRewrite e)
   \<and> o_inputText (handleRewrite (e\<lparr>e_storeApi := f, e_storePort := p\<rparr>)) = o_inputText (handleRewrite e)
   \<and> o_step3_end (handleRewrite (e\<lparr>e_storeApi := f, e_storePort := p\<rparr>)) = o_step3_end (handleRewrite e)
   \<and> o_request (handleRewrite (e\<lparr>e_storeApi := f, e_storePort := p\<rparr>)) = o_request (handleRewrite e)"
    using handleRewrite_store_free [where e = e and f = f and p = p] by simp
  have pending: "o_finished (handleRewrite e) \<and> o_alerts (handleRewrite e) = []
          \<and> o_store (handleRewrite e)
              = Some \<lparr>st_settled = False, st_fetches = [store_call e rewrittenText],
                      st_console = [], st_stats = []\<rparr>"
    if h: "rewrite_succeeds e input rewrittenText \<and> e_autoStore e \<and> e_storePort e = None
        \<and> trim rewrittenText \<noteq> [] \<and> e_storeApi e (store_call e rewrittenText) = FetchPending"
  proof -
    from h have s: "rewrite_succeeds e input rewrittenText" by simp
    from h have "storeMessage (e_platform e) (e_storePort e) (e_apiUrl e) (e_now e + scrape_cost e)
                   (e_storeApi e) (click_recipient e) rewrittenText True
                 = \<lparr>st_settled = False, st_fetches = [store_call e rewrittenText],
                    st_console = [], st_stats = []\<rparr>"
      using storeMessage_pending [of rewrittenText "e_storeApi e" "e_apiUrl e" "e_platform e"
              "click_recipient e" True "e_now e + scrape_cost e"]
      by (simp add: store_call_def)
    with h show ?thesis by (simp add: handleRewrite_success [OF s])
  qed
  have rejected: "o_finished (handleRewrite e) \<and> o_alerts (handleRewrite e) = []
          \<and> o_store (handleRewrite e)
              = Some \<lparr>st_settled = True, st_fetches = [store_call e rewrittenText],
                      st_console = [''Error storing conversation: '' @ msg],
                      st_stats = [''conversationCount'']\<rparr>"
    if h: "rewrite_succeeds e input rewrittenText \<and> e_autoStore e \<and> e_storePort e = None
        \<and> trim rewrittenText \<noteq> [] \<and> e_storeApi e (store_call e rewrittenText) = FetchRejects msg"
  proof -
    from h have s: "rewrite_succeeds e input rewrittenText" by simp
    from h have "storeMessage (e_platform e) (e_storePort e) (e_apiUrl e) (e_now e + scrape_cost e)
                   (e_storeApi e) (click_recipient e) rewrittenText True
                 = \<lparr>st_settled = True, st_fetches = [store_call e rewrittenText],
                    st_console = [''Error storing conversation: '' @ msg],
                    st_stats = [''conversationCount'']\<rparr>"
      using storeMessage_rejected [of rewrittenText "e_storeApi e" "e_apiUrl e" "e_platform e"
              "click_recipient e" True "e_now e + scrape_cost e" msg]
      by (simp add: store_call_def)
    with h show ?thesis by (simp add: handleRewrite_success [OF s])
  qed
  from free pending rejected show ?thesis by blast
qed


lemma click_env_store_call:
  "store_call ((click_env els ms)\<lparr>e_storeApi := f\<rparr>) txt
     = \<lparr>f_url = ''http://localhost:8000/api/store-conversation'',
        f_body = \<lparr>sb_platform = Linkedin, sb_recipient = ''John Doe'', sb_message = txt,
                   sb_is_outgoing = True, sb_timestamp = ms\<rparr>\<rparr>"
proof -
  have "click_recipient ((click_env els ms)\<lparr>e_storeApi := f\<rparr>) = ''John Doe''"
    using click_env_recipient [of els ms] by (simp add: click_recipient_def)
  then show ?thesis
    by (simp add: store_call_def click_env_def scrape_cost_def js_or_default_def API_BASE_URL_def)
qed

theorem store_is_fire_and_forget_witness:
  "rewrite_succeeds ((click_env three_messages 3)\<lparr>e_storeApi := store_silent\<rparr>) textbox
     ''Could we meet tomorrow?''
   \<and> o_finished (handleRewrite ((click_env three_messages 3)\<lparr>e_storeApi := store_silent\<rparr>))
   \<and> o_alerts (handleRewrite ((click_env three_messages 3)\<lparr>e_storeApi := store_silent\<rparr>)) = []
   \<and> o_store (handleRewrite ((click_env three_messages 3)\<lparr>e_storeApi := store_silent\<rparr>))
       = Some \<lparr>st_settled = False,
               st_fetches = [\<lparr>f_url = ''http://localhost:8000/api/store-conversation'',
                              f_body = \<lparr>sb_platform = Linkedin, sb_recipient = ''John Doe'',
                                         sb_message = ''Could we meet tomorrow?'',
                                         sb_is_outgoing = True, sb_timestamp = 3\<rparr>\<rparr>],
               st_console = [], st_stats = []\<rparr>
   \<and> rewrite_succeeds ((click_env three_messages 3)\<lparr>e_storeApi := store_down\<rparr>) textbox
     ''Could we meet tomorrow?''
   \<and> o_finished (handleRewrite ((click_env three_messages 3)\<lparr>e_storeApi := store_down\<rparr>))
   \<and> o_alerts (handleRewrite ((click_env three_messages 3)\<lparr>e_storeApi := store_down\<rparr>)) = []
   \<and> o_store (handleRewrite ((click_env three_messages 3)\<lparr>e_storeApi := store_down\<rparr>))
       = Some \<lparr>st_settled = True,
               st_fetches = [\<lparr>f_url = ''http://localhost:8000/api/store-conversation'',
                              f_body = \<lparr>sb_platform = Linkedin, sb_recipient = ''John Doe'',
                                         sb_message = ''Could we meet tomorrow?'',
                                         sb_is_outgoing = True, sb_timestamp = 3\<rparr>\<rparr>],
               st_console = [''Error storing conversation: Failed to fetch''],
               st_stats = [''conversationCount'']\<rparr>"
proof -
  let ?quiet = "(click_env three_messages 3)\<lparr>e_storeApi := store_silent\<rparr>"
  let ?down = "(click_env three_messages 3)\<lparr>e_storeApi := store_down\<rparr>"
  let ?txt = "''Could we meet tomorrow?''"
  have s1: "rewrite_succeeds ?quiet textbox ?txt" by (rule click_env_succeeds)
  have s2: "rewrite_succeeds ?down textbox ?txt" by (rule click_env_succeeds)
  have a1: "e_autoStore ?quiet" "e_storePort ?quiet = None" by (simp_all add: click_env_def)
  have a2: "e_autoStore ?down" "e_storePort ?down = None" by (simp_all add: click_env_def)
  have t: "trim ?txt \<noteq> []" by (simp add: trim_def is_ws_def)
  have f1: "e_storeApi ?quiet (store_call ?quiet ?txt) = FetchPending"
    by (simp add: store_silent_def)
  have f2: "e_storeApi ?down (store_call ?down ?txt) = FetchRejects ''Failed to fetch''"
    by (simp add: store_down_def)
  from store_is_fire_and_forget
         [where e = ?quiet and input = textbox and rewrittenText = ?txt] s1 a1 t f1
  have r1: "o_finished (handleRewrite ?quiet) \<and> o_alerts (handleRewrite ?quiet) = []
            \<and> o_store (handleRewrite ?quiet)
                = Some \<lparr>st_settled = False, st_fetches = [store_call ?quiet ?txt],
                        st_console = [], st_stats = []\<rparr>"
    by blast
  from store_is_fire_and_forget
         [where e = ?down and input = textbox and rewrittenText = ?txt
            and msg = "''Failed to fetch''"] s2 a2 t f2
  have r2: "o_finished (handleRewrite ?down) \<and> o_alerts (handleRewrite ?down) = []
            \<and> o_store (handleRewrite ?down)
                = Some \<lparr>st_settled = True, st_fetches = [store_call ?down ?txt],
                        st_console = [''Error storing conversation: '' @ ''Failed to fetch''],
                        st_stats = [''conversationCount'']\<rparr>"
    by blast
  from s1 s2 r1 r2 show ?thesis
    by (simp add: click_env_store_call)
qed

subsection \<open>Duplicate ingestion\<close>

lemma ingest_duplicate_noop:
  assumes "list_ex (\<lambda>m. sm_body m = sb_message ev \<and> sm_outgoing m = sb_is_outgoing ev)
             (queryRecentMessages g (sb_platform ev, nm (sb_recipient ev)) window)"
  shows "ingest_message window nm g ev = g"
  using assms by (simp add: ingest_message_def)

lemma recent_after_append:
  assumes "0 < window" and "sm_contact node = key"
  shows "queryRecentMessages (g @ [node]) key window
           = node # take (window - 1) (rev (filter (\<lambda>m. sm_contact m = key) g))"
  using assms by (cases window) (simp_all add: queryRecentMessages_def)

lemma ingest_twice:
  assumes "0 < window"
    and "sb_platform ev' = sb_platform ev" and "sb_recipient ev' = sb_recipient ev"
    and "sb_message ev' = sb_message ev" and "sb_is_outgoing ev' = sb_is_outgoing ev"
  shows "ingest_message window nm (ingest_message window nm g ev) ev' = ingest_message window nm g ev"
proof (cases "list_ex (\<lambda>m. sm_body m = sb_message ev \<and> sm_outgoing m = sb_is_outgoing ev)
                (queryRecentMessages g (sb_platform ev, nm (sb_recipient ev)) window)")
  case True
  then have "ingest_message window nm g ev = g" by (rule ingest_duplicate_noop)
  moreover from True assms have "ingest_message window nm g ev' = g"
    by (simp add: ingest_message_def)
  ultimately show ?thesis by simp
next
  case False
  let ?key = "(sb_platform ev, nm (sb_recipient ev))"
  let ?node = "\<lparr>sm_contact = ?key, sm_body = sb_message ev, sm_outgoing = sb_is_outgoing ev,
                 sm_occurredAt = sb_timestamp ev\<rparr>"
  from False have one: "ingest_message window nm g ev = g @ [?node]"
    by (simp add: ingest_message_def)
  have "queryRecentMessages (g @ [?node]) ?key window
          = ?node # take (window - 1) (rev (filter (\<lambda>m. sm_contact m = ?key) g))"
    using assms(1) by (rule recent_after_append) simp
  then have "list_ex (\<lambda>m. sm_body m = sb_message ev' \<and> sm_outgoing m = sb_is_outgoing ev')
               (queryRecentMessages (g @ [?node]) (sb_platform ev', nm (sb_recipient ev')) window)"
    using assms by simp
  then have "ingest_message window nm (g @ [?node]) ev' = g @ [?node]"
    by (rule ingest_duplicate_noop)
  with one show ?thesis by simp
qed

lemma handleStoreConversation_fetches:
  "sr_fetches (handleStoreConversation url t fetch d)
     = (case sd_message d of
          None \<Rightarrow> []
        | Some message \<Rightarrow>
            if trim message = [] then []
            else [\<lparr>f_url = js_or_default url API_BASE_URL @ ''/api/store-conversation'',
                   f_body = \<lparr>sb_platform = sd_platform d, sb_recipient = sd_recipient d,
                              sb_message = message, sb_is_outgoing = sd_isOutgoing d,
                              sb_timestamp = t\<rparr>\<rparr>])"
proof (cases "sd_message d")
  case None
  then show ?thesis by (simp add: handleStoreConversation_def)
next
  case (Some message)
  show ?thesis
  proof (cases "trim message = []")
    case True
    with Some show ?thesis by (simp add: handleStoreConversation_def)
  next
    case False
    then have "message \<noteq> []" by (auto simp: trim_def)
    with Some False show ?thesis
      by (simp add: handleStoreConversation_def Let_def split: fetch_result.splits sum.splits)
  qed
qed

lemma copies_append:
  "copies (g @ [node]) key body out
     = copies g key body out
       + (if sm_contact node = key \<and> sm_body node = body \<and> sm_outgoing node = out then 1 else 0)"
  by (simp add: copies_def)

lemma send_click_second:
  "sc_store (send_click p lpg gpg (sc_latestDraft (send_click p lpg gpg latestDraft))) = None
   \<and> sc_stats (send_click p lpg gpg (sc_latestDraft (send_click p lpg gpg latestDraft))) = []
   \<and> sc_latestDraft (send_click p lpg gpg (sc_latestDraft (send_click p lpg gpg latestDraft)))
       = sc_latestDraft (send_click p lpg gpg latestDraft)"
proof (cases "p = Web")
  case True
  then show ?thesis by (simp add: send_click_def)
next
  case False
  then have eq: "send_click p lpg gpg d
                   = (if trim d \<noteq> []
                      then (case getRecipient p lpg gpg of
                              Inl err \<Rightarrow>
                                \<lparr>sc_latestDraft = d, sc_store = None, sc_stats = [],
                                 sc_thrown = Some err\<rparr>
                            | Inr recipient \<Rightarrow>
                                \<lparr>sc_latestDraft = [],
                                 sc_store = Some \<lparr>sd_platform = p, sd_recipient = recipient,
                                                   sd_message = Some (trim d),
                                                   sd_isOutgoing = True\<rparr>,
                                 sc_stats = [''conversationCount''], sc_thrown = None\<rparr>)
                      else \<lparr>sc_latestDraft = d, sc_store = None, sc_stats = [],
                            sc_thrown = None\<rparr>)" for d
    by (cases p) (auto simp: send_click_def Let_def split: sum.splits)
  show ?thesis
  proof (cases "trim latestDraft = []")
    case True
    then show ?thesis by (simp add: eq)
  next
    case blank: False
    show ?thesis
    proof (cases "getRecipient p lpg gpg")
      case (Inl err)
      with blank show ?thesis by (simp add: eq)
    next
      case (Inr recipient)
      with blank have "sc_latestDraft (send_click p lpg gpg latestDraft) = []"
        by (simp add: eq)
      then show ?thesis by (simp add: eq trim_def)
    qed
  qed
qed

text \<open>
  C3. An event whose text and direction equal those of one of the most recent stored
  messages of its contact leaves the graph as it is. With a window of at least one
  message, the calls of two runs of \<open>handleStoreConversation\<close> on the same request leave
  the graph as the calls of one run do; when the graph held no node of the event before,
  it holds exactly one afterwards. In the content script, a second click on the send
  button with no edit in between stores nothing.
\<close>

theorem duplicate_store_is_noop:
  "(list_ex (\<lambda>m. sm_body m = sb_message ev \<and> sm_outgoing m = sb_is_outgoing ev)
      (queryRecentMessages g (sb_platform ev, nm (sb_recipient ev)) window)
      \<longrightarrow> ingest_message window nm g ev = g)
   \<and> (0 < window
      \<longrightarrow> backend_store window nm g
            (sr_fetches (handleStoreConversation url t1 fetch d)
             @ sr_fetches (handleStoreConversation url t2 fetch d))
          = backend_store window nm g (sr_fetches (handleStoreConversation url t1 fetch d)))
   \<and> (0 < window \<and> sd_message d = Some message \<and> trim message \<noteq> []
        \<and> copies g (sd_platform d, nm (sd_recipient d)) message (sd_isOutgoing d) = 0
      \<longrightarrow> copies (backend_store window nm g
                    (sr_fetches (handleStoreConversation url t1 fetch d)
                     @ sr_fetches (handleStoreConversation url t2 fetch d)))
            (sd_platform d, nm (sd_recipient d)) message (sd_isOutgoing d) = 1)
   \<and> sc_store (send_click p lpg gpg (sc_latestDraft (send_click p lpg gpg latestDraft))) = None
   \<and> sc_stats (send_click p lpg gpg (sc_latestDraft (send_click p lpg gpg latestDraft))) = []
   \<and> sc_latestDraft (send_click p lpg gpg (sc_latestDraft (send_click p lpg gpg latestDraft)))
       = sc_latestDraft (send_click p lpg gpg latestDraft)"
proof (intro conjI impI)
  assume "list_ex (\<lambda>m. sm_body m = sb_message ev \<and> sm_outgoing m = sb_is_outgoing ev)
      (queryRecentMessages g (sb_platform ev, nm (sb_recipient ev)) window)"
  then show "ingest_message window nm g ev = g" by (rule ingest_duplicate_noop)
next
  assume w: "0 < window"
  show "backend_store window nm g
            (sr_fetches (handleStoreConversation url t1 fetch d)
             @ sr_fetches (handleStoreConversation url t2 fetch d))
          = backend_store window nm g (sr_fetches (handleStoreConversation url t1 fetch d))"
  proof (cases "sd_message d")
    case None
    then show ?thesis by (simp add: handleStoreConversation_fetches)
  next
    case (Some message)
    show ?thesis
    proof (cases "trim message = []")
      case True
      with Some show ?thesis by (simp add: handleStoreConversation_fetches)
    next
      case False
      with Some w show ?thesis
        by (simp add: handleStoreConversation_fetches backend_store_def ingest_twice)
    qed
  qed
next
  assume h: "0 < window \<and> sd_message d = Some message \<and> trim message \<noteq> []
        \<and> copies g (sd_platform d, nm (sd_recipient d)) message (sd_isOutgoing d) = 0"
  let ?key = "(sd_platform d, nm (sd_recipient d))"
  let ?ev = "\<lambda>t. \<lparr>sb_platform = sd_platform d, sb_recipient = sd_recipient d,
                   sb_message = message, sb_is_outgoing = sd_isOutgoing d, sb_timestamp = t\<rparr>"
  from h have none: "\<not> list_ex (\<lambda>m. sm_body m = message \<and> sm_outgoing m = sd_isOutgoing d)
                        (queryRecentMessages g ?key window)"
  proof -
    from h have "filter (\<lambda>m. sm_contact m = ?key \<and> sm_body m = message
                               \<and> sm_outgoing m = sd_isOutgoing d) g = []"
      by (simp add: copies_def)
    then have "\<forall>m\<in>set g. \<not> (sm_contact m = ?key \<and> sm_body m = message
                               \<and> sm_outgoing m = sd_isOutgoing d)"
      by (simp add: filter_empty_conv)
    moreover have "set (queryRecentMessages g ?key window) \<subseteq> {m \<in> set g. sm_contact m = ?key}"
      using set_take_subset [of window "rev (filter (\<lambda>m. sm_contact m = ?key) g)"]
      by (auto simp: queryRecentMessages_def)
    ultimately show ?thesis by (auto simp: list_ex_iff)
  qed
  then have one: "ingest_message window nm g (?ev t1)
                    = g @ [\<lparr>sm_contact = ?key, sm_body = message, sm_outgoing = sd_isOutgoing d,
                             sm_occurredAt = t1\<rparr>]"
    by (simp add: ingest_message_def)
  from h have "ingest_message window nm (ingest_message window nm g (?ev t1)) (?ev t2)
                 = ingest_message window nm g (?ev t1)"
    by (intro ingest_twice) simp_all
  with h one have "backend_store window nm g
                    (sr_fetches (handleStoreConversation url t1 fetch d)
                     @ sr_fetches (handleStoreConversation url t2 fetch d))
                   = g @ [\<lparr>sm_contact = ?key, sm_body = message, sm_outgoing = sd_isOutgoing d,
                            sm_occurredAt = t1\<rparr>]"
    by (simp add: handleStoreConversation_fetches backend_store_def)
  with h show "copies (backend_store window nm g
                    (sr_fetches (handleStoreConversation url t1 fetch d)
                     @ sr_fetches (handleStoreConversation url t2 fetch d)))
            (sd_platform d, nm (sd_recipient d)) message (sd_isOutgoing d) = 1"
    by (simp add: copies_append)
next
  show "sc_store (send_click p lpg gpg (sc_latestDraft (send_click p lpg gpg latestDraft))) = None"
    and "sc_stats (send_click p lpg gpg (sc_latestDraft (send_click p lpg gpg latestDraft))) = []"
    and "sc_latestDraft (send_click p lpg gpg (sc_latestDraft (send_click p lpg gpg latestDraft)))
           = sc_latestDraft (send_click p lpg gpg latestDraft)"
    using send_click_second [of p lpg gpg latestDraft] by simp_all
qed


lemma hello_stored_once:
  "backend_store 5 (\<lambda>s. s) [] (sr_fetches (handleStoreConversation None 7 store_accepts hello_request))
     = [\<lparr>sm_contact = (Linkedin, ''John Doe''), sm_body = ''See you at 2pm'', sm_outgoing = True,
         sm_occurredAt = 7\<rparr>]"
  by (simp add: handleStoreConversation_fetches hello_request_def trim_def is_ws_def
                backend_store_def ingest_message_def queryRecentMessages_def)

theorem duplicate_store_is_noop_witness:
  "0 < (5::nat)
   \<and> list_ex (\<lambda>m. sm_body m = ''See you at 2pm'' \<and> sm_outgoing m = True)
       (queryRecentMessages
          [\<lparr>sm_contact = (Linkedin, ''John Doe''), sm_body = ''See you at 2pm'', sm_outgoing = True,
            sm_occurredAt = 7\<rparr>] (Linkedin, ''John Doe'') 5)
   \<and> ingest_message 5 (\<lambda>s. s)
        [\<lparr>sm_contact = (Linkedin, ''John Doe''), sm_body = ''See you at 2pm'', sm_outgoing = True,
          sm_occurredAt = 7\<rparr>]
        \<lparr>sb_platform = Linkedin, sb_recipient = ''John Doe'', sb_message = ''See you at 2pm'',
         sb_is_outgoing = True, sb_timestamp = 9\<rparr>
       = [\<lparr>sm_contact = (Linkedin, ''John Doe''), sm_body = ''See you at 2pm'', sm_outgoing = True,
           sm_occurredAt = 7\<rparr>]
   \<and> backend_store 5 (\<lambda>s. s) []
        (sr_fetches (handleStoreConversation None 7 store_accepts hello_request)
         @ sr_fetches (handleStoreConversation None 9 store_accepts hello_request))
       = [\<lparr>sm_contact = (Linkedin, ''John Doe''), sm_body = ''See you at 2pm'', sm_outgoing = True,
           sm_occurredAt = 7\<rparr>]
   \<and> sd_message hello_request = Some ''See you at 2pm''
   \<and> trim ''See you at 2pm'' \<noteq> []
   \<and> copies [] (Linkedin, ''John Doe'') ''See you at 2pm'' True = 0
   \<and> copies (backend_store 5 (\<lambda>s. s) []
        (sr_fetches (handleStoreConversation None 7 store_accepts hello_request)
         @ sr_fetches (handleStoreConversation None 9 store_accepts hello_request)))
        (Linkedin, ''John Doe'') ''See you at 2pm'' True = 1"
proof -
  let ?node = "\<lparr>sm_contact = (Linkedin, ''John Doe''), sm_body = ''See you at 2pm'',
                 sm_outgoing = True, sm_occurredAt = 7\<rparr>"
  let ?ev = "\<lparr>sb_platform = Linkedin, sb_recipient = ''John Doe'', sb_message = ''See you at 2pm'',
               sb_is_outgoing = True, sb_timestamp = 9\<rparr>"
  have w: "0 < (5::nat)" by simp
  have dup: "list_ex (\<lambda>m. sm_body m = ''See you at 2pm'' \<and> sm_outgoing m = True)
               (queryRecentMessages [?node] (Linkedin, ''John Doe'') 5)"
    by (simp add: queryRecentMessages_def)
  have m: "sd_message hello_request = Some ''See you at 2pm''"
    and pf: "sd_platform hello_request = Linkedin"
    and rc: "sd_recipient hello_request = ''John Doe''"
    and out: "sd_isOutgoing hello_request = True"
    by (simp_all add: hello_request_def)
  have t: "trim ''See you at 2pm'' \<noteq> []" by (simp add: trim_def is_ws_def)
  have z: "copies [] (Linkedin, ''John Doe'') ''See you at 2pm'' True = 0"
    by (simp add: copies_def)
  note inst1 = duplicate_store_is_noop
    [where ev = ?ev and g = "[?node]" and nm = "\<lambda>s. s" and window = 5]
  note inst2 = duplicate_store_is_noop
    [where g = "[]" and nm = "\<lambda>s. s" and window = 5 and d = hello_request and url = None
       and ?t1.0 = 7 and ?t2.0 = 9 and fetch = store_accepts and message = "''See you at 2pm''"]
  from inst1 [THEN conjunct1] dup have a: "ingest_message 5 (\<lambda>s. s) [?node] ?ev = [?node]" by simp
  from inst2 [THEN conjunct2, THEN conjunct1] w have "backend_store 5 (\<lambda>s. s) []
        (sr_fetches (handleStoreConversation None 7 store_accepts hello_request)
         @ sr_fetches (handleStoreConversation None 9 store_accepts hello_request))
       = backend_store 5 (\<lambda>s. s) []
           (sr_fetches (handleStoreConversation None 7 store_accepts hello_request))"
    by blast
  then have b: "backend_store 5 (\<lambda>s. s) []
        (sr_fetches (handleStoreConversation None 7 store_accepts hello_request)
         @ sr_fetches (handleStoreConversation None 9 store_accepts hello_request)) = [?node]"
    by (simp only: hello_stored_once)
  from inst2 [THEN conjunct2, THEN conjunct2, THEN conjunct1] w m t z pf rc out
  have c: "copies (backend_store 5 (\<lambda>s. s) []
        (sr_fetches (handleStoreConversation None 7 store_accepts hello_request)
         @ sr_fetches (handleStoreConversation None 9 store_accepts hello_request)))
        (Linkedin, ''John Doe'') ''See you at 2pm'' True = 1"
    by simp
  from w dup a b m t z c show ?thesis by blast
qed

subsection \<open>Session lanes\<close>







end
